theory Spec2Isabelle
  imports Main
begin

section \<open>Python values, exceptions and the environment\<close>

text \<open>
  The values that travel through contexts, task metadata and worker results are the
  JSON-like Python values. A dict is an association list in insertion order with
  string keys.
\<close>

datatype pyval =
    PNone
  | PBool bool
  | PInt int
  | PStr string
  | PList "pyval list"
  | PDict "(string \<times> pyval) list"

type_synonym pydict = "(string \<times> pyval) list"

text \<open>
  A raised exception is its class together with \<open>str(e)\<close>. \<open>PlainException\<close> is
  \<open>Exception\<close> itself and \<open>OtherException\<close> any further subclass of it;
  \<open>SystemExit\<close>, \<open>KeyboardInterrupt\<close> and \<open>OtherBaseException\<close> are the classes
  that derive from \<open>BaseException\<close> only, which \<open>except Exception\<close> does not catch.
  Workers and scheduled functions are total: a call that never returns is not modelled.
\<close>

datatype exn_class =
    ValueError | TypeError | AttributeError | PlainException | OtherException
  | SystemExit | KeyboardInterrupt | OtherBaseException

datatype exn = Exn exn_class string

fun exn_str :: "exn \<Rightarrow> string" where
  "exn_str (Exn c s) = s"

text \<open>\<open>isinstance(e, Exception)\<close>: what an \<open>except Exception\<close> clause catches.\<close>

fun is_exception :: "exn \<Rightarrow> bool" where
  "is_exception (Exn SystemExit s) = False"
| "is_exception (Exn KeyboardInterrupt s) = False"
| "is_exception (Exn OtherBaseException s) = False"
| "is_exception (Exn c s) = True"

text \<open>
  The exception that leaves a \<open>try\<close> block whose only handler is \<open>except Exception\<close>
  and whose handler does not raise.
\<close>

definition escapes :: "exn + 'a \<Rightarrow> exn option" where
  "escapes r = (case r of Inl x \<Rightarrow> (if is_exception x then None else Some x) | Inr v \<Rightarrow> None)"

text \<open>
  \<open>datetime.now()\<close> reads a clock that the program does not control. The environment
  keeps the last reading (in microseconds) and the time that will have elapsed before each
  of the coming readings; \<open>world\<close> is everything else that workers and scheduled
  functions can observe or change.
\<close>

record 'w env =
  clock :: int
  delays :: "nat list"
  world :: 'w

definition now :: "'w env \<Rightarrow> int \<times> 'w env" where
  "now e = (case delays e of
              [] \<Rightarrow> (clock e, e)
            | d # ds \<Rightarrow> (clock e + int d, e\<lparr>clock := clock e + int d, delays := ds\<rparr>))"

text \<open>Python's \<open>d[k] = v\<close> on an insertion-ordered dict: an existing key keeps its place.\<close>

fun dict_set :: "'k \<Rightarrow> 'v \<Rightarrow> ('k \<times> 'v) list \<Rightarrow> ('k \<times> 'v) list" where
  "dict_set k v [] = [(k, v)]"
| "dict_set k v ((k', v') # kvs) =
     (if k' = k then (k, v) # kvs else (k', v') # dict_set k v kvs)"

text \<open>
  In-place mutation of the value stored under a key (the code holds a reference to the
  stored dict and assigns to one of its items).
\<close>

definition update_member :: "'k \<Rightarrow> ('v \<Rightarrow> 'v) \<Rightarrow> ('k \<times> 'v) list \<Rightarrow> ('k \<times> 'v) list" where
  "update_member k f kvs = map (\<lambda>(k', v). if k' = k then (k', f v) else (k', v)) kvs"

text \<open>
  Python's \<open>min(xs, key=k)\<close> on a non-empty sequence: the running minimum is replaced
  only by a strictly smaller key, so the first minimal element is returned.
\<close>

fun py_min_by :: "('a \<Rightarrow> nat) \<Rightarrow> 'a \<Rightarrow> 'a list \<Rightarrow> 'a" where
  "py_min_by k best [] = best"
| "py_min_by k best (x # xs) = py_min_by k (if k x < k best then x else best) xs"

section \<open>teams/base\_leader\_agent.py\<close>

datatype TaskStatus = PENDING | IN_PROGRESS | COMPLETED | FAILED | DELEGATED

datatype TaskPriority = LOW | MEDIUM | HIGH | CRITICAL

text \<open>
  An f-string whose interpolated values are arbitrary Python values is kept unrendered,
  as the list of its literal and interpolated parts.
\<close>

datatype fpart = Lit string | Interp pyval

record task =
  task_id :: string
  description :: "fpart list"
  task_type :: string
  priority :: TaskPriority
  assigned_to :: "string option"
  status :: TaskStatus
  created_at :: int
  completed_at :: "int option"
  result :: pyval
  error :: "string option"
  metadata :: pydict

text \<open>\<open>Task.__init__\<close>; \<open>metadata or {}\<close> is the identity on dicts up to equality.\<close>

definition Task ::
  "string \<Rightarrow> fpart list \<Rightarrow> string \<Rightarrow> TaskPriority \<Rightarrow> string option \<Rightarrow> pydict \<Rightarrow> 'w env \<Rightarrow>
     task \<times> 'w env" where
  "Task tid descr ty prio asg md e =
     (case now e of (ts, e') \<Rightarrow>
        (\<lparr>task_id = tid, description = descr, task_type = ty, priority = prio,
          assigned_to = asg, status = PENDING, created_at = ts, completed_at = None,
          result = PNone, error = None, metadata = md\<rparr>, e'))"

text \<open>
  A registered worker: its \<open>execute(**kwargs)\<close>, which returns a value or raises and may
  change the world, and its \<open>initialize()\<close> when it has one.
\<close>

record 'w agent =
  agent_execute :: "pydict \<Rightarrow> 'w \<Rightarrow> (exn + pyval) \<times> 'w"
  agent_initialize :: "('w \<Rightarrow> (exn + unit) \<times> 'w) option"

record 'w agent_data =
  agent_instance :: "'w agent"
  capabilities :: "string list"
  tasks_assigned :: nat
  tasks_completed :: nat
  tasks_failed :: nat

record 'w leader =
  team_name :: string
  team_members :: "(string \<times> 'w agent_data) list"
  tasks :: "(string \<times> task) list"
  task_counter :: nat
  initialized :: bool

definition register_agent ::
  "string \<Rightarrow> 'w agent \<Rightarrow> string list \<Rightarrow> ('w, 'z) leader_scheme \<Rightarrow> ('w, 'z) leader_scheme" where
  "register_agent agent_name inst caps L =
     L\<lparr>team_members :=
         dict_set agent_name
           \<lparr>agent_instance = inst, capabilities = caps,
            tasks_assigned = 0, tasks_completed = 0, tasks_failed = 0\<rparr>
           (team_members L)\<rparr>"

text \<open>
  \<open>initialize\<close>: a worker's \<open>initialize()\<close> that raises an \<open>Exception\<close> is logged and
  skipped. Any other exception leaves the loop and \<open>initialize\<close> (the first component of
  the result), before \<open>initialized\<close> is set.
\<close>

fun init_members :: "(string \<times> 'w agent_data) list \<Rightarrow> 'w \<Rightarrow> exn option \<times> 'w" where
  "init_members [] w = (None, w)"
| "init_members ((n, d) # ms) w =
     (case agent_initialize (agent_instance d) of
        None \<Rightarrow> init_members ms w
      | Some f \<Rightarrow>
          (case f w of (r, w') \<Rightarrow>
             (case escapes r of
                Some x \<Rightarrow> (Some x, w')
              | None \<Rightarrow> init_members ms w')))"

definition initialize ::
  "('w, 'z) leader_scheme \<Rightarrow> 'w env \<Rightarrow> exn option \<times> ('w, 'z) leader_scheme \<times> 'w env" where
  "initialize L e =
     (case init_members (team_members L) (world e) of
        (Some x, w') \<Rightarrow> (Some x, L, e\<lparr>world := w'\<rparr>)
      | (None, w') \<Rightarrow> (None, L\<lparr>initialized := True\<rparr>, e\<lparr>world := w'\<rparr>))"

definition capable_agents ::
  "('w, 'z) leader_scheme \<Rightarrow> string \<Rightarrow> (string \<times> 'w agent_data) list" where
  "capable_agents L ty = filter (\<lambda>(n, d). ty \<in> set (capabilities d)) (team_members L)"

definition delegate_task ::
  "('w, 'z) leader_scheme \<Rightarrow> task \<Rightarrow> bool \<times> task \<times> ('w, 'z) leader_scheme" where
  "delegate_task L t =
     (case capable_agents L (task_type t) of
        [] \<Rightarrow>
          (False,
           t\<lparr>status := FAILED,
             error := Some (''No agent available for task type: '' @ task_type t)\<rparr>,
           L)
      | c # cs \<Rightarrow>
          (case py_min_by (\<lambda>x. tasks_assigned (snd x)) c cs of
             (chosen_agent_name, chosen_agent_data) \<Rightarrow>
               (True,
                t\<lparr>assigned_to := Some chosen_agent_name, status := DELEGATED\<rparr>,
                L\<lparr>team_members :=
                    update_member chosen_agent_name
                      (\<lambda>d. d\<lparr>tasks_assigned := tasks_assigned d + 1\<rparr>) (team_members L)\<rparr>)))"

text \<open>
  \<open>execute_task\<close> returns the worker's result or raises; either way the task record, the
  counters and the environment keep what was written before the exit. \<open>not task.assigned_to\<close>
  holds for \<open>None\<close> and for the empty name. While the worker runs the status is
  \<open>IN_PROGRESS\<close>; the normal exit of the \<open>try\<close> and its \<open>except Exception\<close> handler
  overwrite it, and an exception that the handler does not catch leaves it.
\<close>

definition execute_task ::
  "('w, 'z) leader_scheme \<Rightarrow> 'w env \<Rightarrow> task \<Rightarrow>
     (exn + pyval) \<times> task \<times> ('w, 'z) leader_scheme \<times> 'w env" where
  "execute_task L e t =
     (if assigned_to t = None \<or> assigned_to t = Some []
      then (Inl (Exn ValueError ''Task not assigned to any agent''), t, L, e)
      else
        (let n = the (assigned_to t) in
         case map_of (team_members L) n of
           None \<Rightarrow>
             (Inl (Exn ValueError (''Agent '' @ [CHR 0x27] @ n @ [CHR 0x27] @ '' not found'')),
              t, L, e)
         | Some agent_data \<Rightarrow>
             (case agent_execute (agent_instance agent_data) (metadata t) (world e) of
                (Inr r, w') \<Rightarrow>
                  (case now (e\<lparr>world := w'\<rparr>) of (ts, e') \<Rightarrow>
                     (Inr r,
                      t\<lparr>result := r, status := COMPLETED, completed_at := Some ts\<rparr>,
                      L\<lparr>team_members :=
                          update_member n (\<lambda>d. d\<lparr>tasks_completed := tasks_completed d + 1\<rparr>)
                            (team_members L)\<rparr>,
                      e'))
              | (Inl x, w') \<Rightarrow>
                  (if is_exception x
                   then
                     (case now (e\<lparr>world := w'\<rparr>) of (ts, e') \<Rightarrow>
                        (Inl x,
                         t\<lparr>status := FAILED, error := Some (exn_str x), completed_at := Some ts\<rparr>,
                         L\<lparr>team_members :=
                             update_member n (\<lambda>d. d\<lparr>tasks_failed := tasks_failed d + 1\<rparr>)
                               (team_members L)\<rparr>,
                         e'))
                   else (Inl x, t\<lparr>status := IN_PROGRESS\<rparr>, L, e\<lparr>world := w'\<rparr>)))))"

text \<open>
  The three loops of \<open>execute_goal\<close>. \<open>self.tasks\<close> holds references to the task
  objects, so the store is refreshed with the current records after each loop.
\<close>

definition store_tasks :: "task list \<Rightarrow> ('w, 'z) leader_scheme \<Rightarrow> ('w, 'z) leader_scheme" where
  "store_tasks ts L = L\<lparr>tasks := fold (\<lambda>t. dict_set (task_id t) t) ts (tasks L)\<rparr>"

fun delegate_all ::
  "('w, 'z) leader_scheme \<Rightarrow> task list \<Rightarrow> task list \<times> ('w, 'z) leader_scheme" where
  "delegate_all L [] = ([], L)"
| "delegate_all L (t # ts) =
     (case delegate_task L t of (ok, t', L') \<Rightarrow>
        (case delegate_all L' ts of (ts', L'') \<Rightarrow> (t' # ts', L'')))"

text \<open>
  The \<open>try\<close>/\<open>except Exception\<close> around each \<open>execute_task\<close> only logs. An exception
  that it does not catch ends the loop: it is the first component of the result, and the
  tasks after the one that raised are left as they are.
\<close>

fun execute_all ::
  "('w, 'z) leader_scheme \<Rightarrow> 'w env \<Rightarrow> task list \<Rightarrow>
     exn option \<times> task list \<times> pyval list \<times> ('w, 'z) leader_scheme \<times> 'w env" where
  "execute_all L e [] = (None, [], [], L, e)"
| "execute_all L e (t # ts) =
     (case execute_task L e t of (r, t', L', e') \<Rightarrow>
        (case escapes r of
           Some x \<Rightarrow> (Some x, t' # ts, [], L', e')
         | None \<Rightarrow>
             (case execute_all L' e' ts of (raised, ts', results, L'', e'') \<Rightarrow>
                (raised, t' # ts', (case r of Inr v \<Rightarrow> v # results | Inl x \<Rightarrow> results),
                 L'', e''))))"

text \<open>
  \<open>execute_goal\<close>, over the two abstract methods. A planner reads and advances the task
  counter, reads the clock for \<open>created_at\<close>, and may raise. An exception that leaves
  \<open>initialize\<close>, the planner or the execution loop leaves \<open>execute_goal\<close>.
\<close>

type_synonym ('w, 'z) planner =
  "('w, 'z) leader_scheme \<Rightarrow> 'w env \<Rightarrow> string \<Rightarrow> pydict option \<Rightarrow>
     (exn + task list) \<times> ('w, 'z) leader_scheme \<times> 'w env"

type_synonym ('w, 'z, 'r) aggregator = "('w, 'z) leader_scheme \<Rightarrow> task list \<Rightarrow> exn + 'r"

definition execute_goal ::
  "('w, 'z) planner \<Rightarrow> ('w, 'z, 'r) aggregator \<Rightarrow> ('w, 'z) leader_scheme \<Rightarrow> 'w env \<Rightarrow>
     string \<Rightarrow> pydict option \<Rightarrow> (exn + 'r) \<times> ('w, 'z) leader_scheme \<times> 'w env" where
  "execute_goal plan_tasks aggregate_results L e goal context =
     (case (if initialized L then (None, L, e) else initialize L e) of
        (Some x, L1, e1) \<Rightarrow> (Inl x, L1, e1)
      | (None, L1, e1) \<Rightarrow>
          (case plan_tasks L1 e1 goal context of
             (Inl x, L2, e2) \<Rightarrow> (Inl x, L2, e2)
           | (Inr ts, L2, e2) \<Rightarrow>
               (case delegate_all (store_tasks ts L2) ts of (ts3, L3) \<Rightarrow>
                  (case execute_all (store_tasks ts3 L3) e2 ts3 of
                     (Some x, ts4, results, L4, e4) \<Rightarrow> (Inl x, store_tasks ts4 L4, e4)
                   | (None, ts4, results, L4, e4) \<Rightarrow>
                       (aggregate_results (store_tasks ts4 L4) ts4, store_tasks ts4 L4, e4)))))"

text \<open>
  A session of calls on one leader. Return values and raised exceptions go to the caller;
  what the call wrote before it returned or raised stays.
\<close>

datatype 'w leader_op =
    Register string "'w agent" "string list"
  | Initialize
  | Delegate task
  | Execute task
  | ExecuteGoal string "pydict option"

fun apply_op ::
  "('w, 'z) planner \<Rightarrow> ('w, 'z, 'r) aggregator \<Rightarrow> ('w, 'z) leader_scheme \<times> 'w env \<Rightarrow>
     'w leader_op \<Rightarrow> ('w, 'z) leader_scheme \<times> 'w env" where
  "apply_op plan_tasks aggregate_results (L, e) (Register agent_name inst caps) =
     (register_agent agent_name inst caps L, e)"
| "apply_op plan_tasks aggregate_results (L, e) Initialize = snd (initialize L e)"
| "apply_op plan_tasks aggregate_results (L, e) (Delegate t) =
     (snd (snd (delegate_task L t)), e)"
| "apply_op plan_tasks aggregate_results (L, e) (Execute t) = snd (snd (execute_task L e t))"
| "apply_op plan_tasks aggregate_results (L, e) (ExecuteGoal goal context) =
     snd (execute_goal plan_tasks aggregate_results L e goal context)"

definition run_ops ::
  "('w, 'z) planner \<Rightarrow> ('w, 'z, 'r) aggregator \<Rightarrow> ('w, 'z) leader_scheme \<times> 'w env \<Rightarrow>
     'w leader_op list \<Rightarrow> ('w, 'z) leader_scheme \<times> 'w env" where
  "run_ops plan_tasks aggregate_results s ops =
     foldl (apply_op plan_tasks aggregate_results) s ops"

text \<open>No \<open>register_agent\<close> call of the session reuses a name that is registered by then.\<close>

fun fresh_registrations :: "string list \<Rightarrow> 'w leader_op list \<Rightarrow> bool" where
  "fresh_registrations names [] = True"
| "fresh_registrations names (Register agent_name inst caps # ops) =
     (agent_name \<notin> set names \<and> fresh_registrations (agent_name # names) ops)"
| "fresh_registrations names (op # ops) = fresh_registrations names ops"

definition counters_le :: "'w agent_data \<Rightarrow> 'w agent_data \<Rightarrow> bool" where
  "counters_le d d' =
     (tasks_assigned d \<le> tasks_assigned d' \<and> tasks_completed d \<le> tasks_completed d' \<and>
      tasks_failed d \<le> tasks_failed d')"

text \<open>Every entry of \<open>L\<close> is still registered in \<open>L'\<close>, with counters at least as large.\<close>

definition grows :: "('w, 'z) leader_scheme \<Rightarrow> ('w, 'z) leader_scheme \<Rightarrow> bool" where
  "grows L L' = (fst ` set (team_members L') = fst ` set (team_members L) \<and>
     (\<forall>n d. map_of (team_members L) n = Some d \<longrightarrow>
       (\<exists>d'. map_of (team_members L') n = Some d' \<and> counters_le d d')))"


section \<open>String operations\<close>

text \<open>\<open>str(n)\<close> for an int.\<close>

fun str_nat :: "nat \<Rightarrow> string" where
  "str_nat n =
     (if n < 10 then [''0123456789'' ! n] else str_nat (n div 10) @ [''0123456789'' ! (n mod 10)])"

definition str_int :: "int \<Rightarrow> string" where
  "str_int i = (if i < 0 then CHR ''-'' # str_nat (nat (- i)) else str_nat (nat i))"

text \<open>
  \<open>int(s)\<close> on an optional sign followed by decimal digits, the strings that \<open>str\<close> of an
  int produces; anything else is \<open>None\<close>, for the \<open>ValueError\<close>.
\<close>

definition digit_val :: "char \<Rightarrow> nat option" where
  "digit_val c =
     (if c = CHR ''0'' then Some 0 else if c = CHR ''1'' then Some 1
      else if c = CHR ''2'' then Some 2 else if c = CHR ''3'' then Some 3
      else if c = CHR ''4'' then Some 4 else if c = CHR ''5'' then Some 5
      else if c = CHR ''6'' then Some 6 else if c = CHR ''7'' then Some 7
      else if c = CHR ''8'' then Some 8 else if c = CHR ''9'' then Some 9 else None)"

fun parse_nat :: "nat \<Rightarrow> string \<Rightarrow> nat option" where
  "parse_nat acc [] = Some acc"
| "parse_nat acc (c # cs) =
     (case digit_val c of None \<Rightarrow> None | Some d \<Rightarrow> parse_nat (10 * acc + d) cs)"

definition py_int :: "string \<Rightarrow> int option" where
  "py_int s =
     (case s of
        [] \<Rightarrow> None
      | c # cs \<Rightarrow>
          if c = CHR ''-'' then (if cs = [] then None else map_option (\<lambda>n. - int n) (parse_nat 0 cs))
          else if c = CHR ''+'' then (if cs = [] then None else map_option int (parse_nat 0 cs))
          else map_option int (parse_nat 0 s))"

definition startswith :: "string \<Rightarrow> string \<Rightarrow> bool" where
  "startswith s p = (take (length p) s = p)"

text \<open>
  \<open>s.replace(old, new)\<close> for a non-empty \<open>old\<close>: left to right, without overlaps; the
  counter is the number of characters of a match still to be skipped.
\<close>

fun replace_from :: "string \<Rightarrow> string \<Rightarrow> nat \<Rightarrow> string \<Rightarrow> string" where
  "replace_from old new skip [] = []"
| "replace_from old new (Suc k) (c # cs) = replace_from old new k cs"
| "replace_from old new 0 (c # cs) =
     (if startswith (c # cs) old then new @ replace_from old new (length old - 1) cs
      else c # replace_from old new 0 cs)"

definition py_replace :: "string \<Rightarrow> string \<Rightarrow> string \<Rightarrow> string" where
  "py_replace s old new = replace_from old new 0 s"

definition rstrip :: "string \<Rightarrow> string \<Rightarrow> string" where
  "rstrip s chars = rev (dropWhile (\<lambda>c. c \<in> set chars) (rev s))"

section \<open>task\_scheduler/task\_scheduler.py\<close>

text \<open>
  The scheduler's \<open>Task\<close>. \<open>func\<close> is called as \<open>func(*args, **kwargs)\<close>; it returns a value
  or raises and may change the world, not the scheduler. Times are microseconds.
\<close>

record 'w scheduled_task =
  name :: string
  func :: "pyval list \<Rightarrow> pydict \<Rightarrow> 'w \<Rightarrow> (exn + pyval) \<times> 'w"
  args :: "pyval list"
  kwargs :: pydict
  schedule :: "string option"
  last_run :: "int option"
  next_run :: "int option"
  runs :: nat
  enabled :: bool

definition new_scheduled_task ::
  "string \<Rightarrow> (pyval list \<Rightarrow> pydict \<Rightarrow> 'w \<Rightarrow> (exn + pyval) \<times> 'w) \<Rightarrow> pyval list \<Rightarrow> pydict \<Rightarrow>
     string option \<Rightarrow> 'w scheduled_task" where
  "new_scheduled_task nm f as kw sch =
     \<lparr>name = nm, func = f, args = as, kwargs = kw, schedule = sch,
      last_run = None, next_run = None, runs = 0, enabled = True\<rparr>"

text \<open>\<open>Task.execute\<close>: an exception of \<open>func\<close> is wrapped in a plain \<open>Exception\<close>.\<close>

definition Task_execute ::
  "'w scheduled_task \<Rightarrow> 'w env \<Rightarrow> (exn + pyval) \<times> 'w scheduled_task \<times> 'w env" where
  "Task_execute t e =
     (case func t (args t) (kwargs t) (world e) of
        (Inr r, w') \<Rightarrow>
          (case now (e\<lparr>world := w'\<rparr>) of (ts, e') \<Rightarrow>
             (Inr r, t\<lparr>last_run := Some ts, runs := runs t + 1\<rparr>, e'))
      | (Inl x, w') \<Rightarrow>
          (Inl (Exn PlainException (''Task '' @ name t @ '' failed: '' @ exn_str x)),
           t, e\<lparr>world := w'\<rparr>))"

datatype log_level = INFO | WARNING | ERROR

text \<open>
  A history entry; the timestamp is kept as the clock reading rather than its ISO
  rendering. \<open>h_runs\<close> is present on success, \<open>h_error\<close> on failure.
\<close>

record history_entry =
  h_task :: string
  h_timestamp :: int
  h_status :: string
  h_runs :: "nat option"
  h_error :: "string option"

text \<open>
  \<open>TaskSchedulerAgent\<close>: the \<open>BaseAgent\<close> fields it uses and the entries of \<open>self.state\<close>.
  The background thread of \<open>start\<close> is not modelled.
\<close>

record 'w scheduler =
  scheduler_name :: string
  scheduler_initialized :: bool
  state_tasks :: "(string \<times> 'w scheduled_task) list"
  state_running :: bool
  state_history :: "history_entry list"
  logged :: "(log_level \<times> string) list"

definition log_msg :: "log_level \<Rightarrow> string \<Rightarrow> 'w scheduler \<Rightarrow> 'w scheduler" where
  "log_msg lvl msg S = S\<lparr>logged := logged S @ [(lvl, msg)]\<rparr>"

text \<open>\<open>BaseAgent.initialize\<close> with the scheduler's \<open>_initialize\<close>.\<close>

definition scheduler_initialize :: "'w scheduler \<Rightarrow> 'w scheduler" where
  "scheduler_initialize S =
     (if scheduler_initialized S then S
      else
        log_msg INFO (scheduler_name S @ '' initialized successfully'')
          ((log_msg INFO (''Initializing '' @ scheduler_name S) S)
             \<lparr>state_tasks := [], state_running := False, state_history := [],
              scheduler_initialized := True\<rparr>))"

definition timedelta_seconds :: "int \<Rightarrow> int" where
  "timedelta_seconds n = n * 1000000"

definition timedelta_minutes :: "int \<Rightarrow> int" where
  "timedelta_minutes n = n * 60000000"

definition timedelta_hours :: "int \<Rightarrow> int" where
  "timedelta_hours n = n * 3600000000"

text \<open>An optional interval is truthy when it is given and not zero.\<close>

definition truthy_int :: "int option \<Rightarrow> bool" where
  "truthy_int i = (i \<noteq> None \<and> i \<noteq> Some 0)"

definition add_task ::
  "string \<Rightarrow> (pyval list \<Rightarrow> pydict \<Rightarrow> 'w \<Rightarrow> (exn + pyval) \<times> 'w) \<Rightarrow> pyval list \<Rightarrow> pydict \<Rightarrow>
     int option \<Rightarrow> int option \<Rightarrow> int option \<Rightarrow> bool \<Rightarrow> 'w scheduler \<Rightarrow> 'w env \<Rightarrow>
     'w scheduler \<times> 'w env" where
  "add_task nm f as kw interval_seconds interval_minutes interval_hours run_immediately S e =
     (let S1 = scheduler_initialize S;
          sch =
            (if truthy_int interval_seconds
             then Some (''every_'' @ str_int (the interval_seconds) @ ''s'')
             else if truthy_int interval_minutes
             then Some (''every_'' @ str_int (the interval_minutes) @ ''m'')
             else if truthy_int interval_hours
             then Some (''every_'' @ str_int (the interval_hours) @ ''h'')
             else None);
          t = new_scheduled_task nm f as kw sch;
          (t1, e1) =
            (if truthy_int interval_seconds
             then (case now e of (ts, e') \<Rightarrow>
                     (t\<lparr>next_run := Some (ts + timedelta_seconds (the interval_seconds))\<rparr>, e'))
             else if truthy_int interval_minutes
             then (case now e of (ts, e') \<Rightarrow>
                     (t\<lparr>next_run := Some (ts + timedelta_minutes (the interval_minutes))\<rparr>, e'))
             else if truthy_int interval_hours
             then (case now e of (ts, e') \<Rightarrow>
                     (t\<lparr>next_run := Some (ts + timedelta_hours (the interval_hours))\<rparr>, e'))
             else (t, e));
          (t2, e2) =
            (if run_immediately
             then (case now e1 of (ts, e') \<Rightarrow> (t1\<lparr>next_run := Some ts\<rparr>, e'))
             else (t1, e1))
      in (log_msg INFO (''Task '' @ [CHR 0x27] @ nm @ [CHR 0x27] @ '' added to scheduler'')
            (S1\<lparr>state_tasks := dict_set nm t2 (state_tasks S1)\<rparr>),
          e2))"

definition remove_task :: "string \<Rightarrow> 'w scheduler \<Rightarrow> 'w scheduler" where
  "remove_task nm S =
     (if nm \<in> fst ` set (state_tasks S)
      then log_msg INFO (''Task '' @ [CHR 0x27] @ nm @ [CHR 0x27] @ '' removed'')
             (S\<lparr>state_tasks := filter (\<lambda>(k, t). k \<noteq> nm) (state_tasks S)\<rparr>)
      else S)"

text \<open>
  \<open>_update_next_run\<close>. \<open>int(parts)\<close> can raise \<open>ValueError\<close>; the message is not modelled.
\<close>

definition update_next_run ::
  "'w scheduled_task \<Rightarrow> 'w env \<Rightarrow> (exn + unit) \<times> 'w scheduled_task \<times> 'w env" where
  "update_next_run t e =
     (case schedule t of
        None \<Rightarrow> (Inr (), t\<lparr>next_run := None\<rparr>, e)
      | Some sch \<Rightarrow>
          if sch = [] then (Inr (), t\<lparr>next_run := None\<rparr>, e)
          else if startswith sch ''every_'' then
            (case py_int (rstrip (py_replace sch ''every_'' '''') ''smh'') of
               None \<Rightarrow> (Inl (Exn ValueError ''invalid literal for int()''), t, e)
             | Some interval \<Rightarrow>
                 if last sch = CHR ''s'' then
                   (case now e of (ts, e') \<Rightarrow>
                      (Inr (), t\<lparr>next_run := Some (ts + timedelta_seconds interval)\<rparr>, e'))
                 else if last sch = CHR ''m'' then
                   (case now e of (ts, e') \<Rightarrow>
                      (Inr (), t\<lparr>next_run := Some (ts + timedelta_minutes interval)\<rparr>, e'))
                 else if last sch = CHR ''h'' then
                   (case now e of (ts, e') \<Rightarrow>
                      (Inr (), t\<lparr>next_run := Some (ts + timedelta_hours interval)\<rparr>, e'))
                 else (Inr (), t, e))
          else (Inr (), t, e))"

text \<open>
  \<open>_execute_task\<close>. The handler of its \<open>try\<close> logs, appends the failure entry and re-raises;
  it also covers an exception of \<open>_update_next_run\<close>.
\<close>

definition execute_task_failed ::
  "exn \<Rightarrow> 'w scheduled_task \<Rightarrow> 'w scheduler \<Rightarrow> 'w env \<Rightarrow>
     (exn + pyval) \<times> 'w scheduled_task \<times> 'w scheduler \<times> 'w env" where
  "execute_task_failed x t S e =
     (case now e of (ts, e') \<Rightarrow>
        (Inl x, t,
         (log_msg ERROR (''Task '' @ name t @ '' failed: '' @ exn_str x) S)
           \<lparr>state_history := state_history S @
              [\<lparr>h_task = name t, h_timestamp = ts, h_status = ''failed'',
                h_runs = None, h_error = Some (exn_str x)\<rparr>]\<rparr>,
         e'))"

definition scheduler_execute_task ::
  "'w scheduled_task \<Rightarrow> 'w scheduler \<Rightarrow> 'w env \<Rightarrow>
     (exn + pyval) \<times> 'w scheduled_task \<times> 'w scheduler \<times> 'w env" where
  "scheduler_execute_task t S e =
     (let S1 = log_msg INFO (''Executing task: '' @ name t) S in
      case Task_execute t e of
        (Inl x, t1, e1) \<Rightarrow> execute_task_failed x t1 S1 e1
      | (Inr r, t1, e1) \<Rightarrow>
          (case update_next_run t1 e1 of
             (Inl x, t2, e2) \<Rightarrow> execute_task_failed x t2 S1 e2
           | (Inr u, t2, e2) \<Rightarrow>
               (case now e2 of (ts, e3) \<Rightarrow>
                  (Inr r, t2,
                   S1\<lparr>state_history := state_history S1 @
                        [\<lparr>h_task = name t2, h_timestamp = ts, h_status = ''success'',
                          h_runs = Some (runs t2), h_error = None\<rparr>]\<rparr>,
                   e3))))"

text \<open>
  The task object lives in \<open>state['tasks']\<close>, so what \<open>_execute_task\<close> wrote to it is
  written back under its key, also when the call raises.
\<close>

definition put_task :: "string \<Rightarrow> 'w scheduled_task \<Rightarrow> 'w scheduler \<Rightarrow> 'w scheduler" where
  "put_task k t S = S\<lparr>state_tasks := update_member k (\<lambda>old. t) (state_tasks S)\<rparr>"

text \<open>
  The loop of \<open>execute()\<close> over the due tasks, in dict order; \<open>now_ts\<close> is the one clock
  reading taken before the loop. An exception leaves the loop at once.
\<close>

definition is_due :: "int \<Rightarrow> 'w scheduled_task \<Rightarrow> bool" where
  "is_due now_ts t = (enabled t \<and> next_run t \<noteq> None \<and> the (next_run t) \<le> now_ts)"

fun execute_due ::
  "int \<Rightarrow> (string \<times> 'w scheduled_task) list \<Rightarrow> pydict \<Rightarrow> 'w scheduler \<Rightarrow> 'w env \<Rightarrow>
     (exn + pydict) \<times> 'w scheduler \<times> 'w env" where
  "execute_due now_ts [] results S e = (Inr results, S, e)"
| "execute_due now_ts ((k, t) # rest) results S e =
     (if is_due now_ts t
      then
        (case scheduler_execute_task t S e of
           (Inl x, t', S', e') \<Rightarrow> (Inl x, put_task k t' S', e')
         | (Inr r, t', S', e') \<Rightarrow>
             execute_due now_ts rest (dict_set k r results) (put_task k t' S') e')
      else execute_due now_ts rest results S e)"

definition execute ::
  "string option \<Rightarrow> 'w scheduler \<Rightarrow> 'w env \<Rightarrow> (exn + pyval) \<times> 'w scheduler \<times> 'w env" where
  "execute task_name S0 e =
     (let S = scheduler_initialize S0 in
      if task_name \<noteq> None \<and> task_name \<noteq> Some []
      then
        (case map_of (state_tasks S) (the task_name) of
           None \<Rightarrow>
             (Inl (Exn ValueError
                (''Task '' @ [CHR 0x27] @ the task_name @ [CHR 0x27] @ '' not found'')), S, e)
         | Some t \<Rightarrow>
             (case scheduler_execute_task t S e of
                (r, t', S', e') \<Rightarrow> (r, put_task (the task_name) t' S', e')))
      else
        (case now e of (now_ts, e0) \<Rightarrow>
           (case execute_due now_ts (state_tasks S) [] S e0 of
              (Inl x, S', e') \<Rightarrow> (Inl x, S', e')
            | (Inr results, S', e') \<Rightarrow> (Inr (PDict results), S', e'))))"




definition get_history :: "nat \<Rightarrow> 'w scheduler \<Rightarrow> history_entry list" where
  "get_history limit S =
     (if limit = 0 then state_history S
      else drop (length (state_history S) - limit) (state_history S))"


text \<open>The environment only moves forward.\<close>

definition later :: "'w env \<Rightarrow> 'w env \<Rightarrow> bool" where
  "later e e' = (clock e \<le> clock e' \<and> set (delays e') \<subseteq> set (delays e))"


section \<open>Python operations used by the bakery leader\<close>

text \<open>
  \<open>str.lower()\<close> on the ASCII letters; every other character is left as it is.
\<close>

definition lower_char :: "char \<Rightarrow> char" where
  "lower_char c =
     (case map_of (zip ''ABCDEFGHIJKLMNOPQRSTUVWXYZ'' ''abcdefghijklmnopqrstuvwxyz'') c of
        None \<Rightarrow> c
      | Some l \<Rightarrow> l)"

definition lower :: "string \<Rightarrow> string" where
  "lower s = map lower_char s"

text \<open>\<open>sub in s\<close> on strings.\<close>

fun contains :: "string \<Rightarrow> string \<Rightarrow> bool" where
  "contains sub [] = (sub = [])"
| "contains sub (c # cs) = (startswith (c # cs) sub \<or> contains sub cs)"

definition truthy :: "pyval \<Rightarrow> bool" where
  "truthy v =
     (case v of
        PNone \<Rightarrow> False
      | PBool b \<Rightarrow> b
      | PInt i \<Rightarrow> i \<noteq> 0
      | PStr s \<Rightarrow> s \<noteq> []
      | PList xs \<Rightarrow> xs \<noteq> []
      | PDict d \<Rightarrow> d \<noteq> [])"

definition type_name :: "pyval \<Rightarrow> string" where
  "type_name v =
     (case v of
        PNone \<Rightarrow> ''NoneType''
      | PBool b \<Rightarrow> ''bool''
      | PInt i \<Rightarrow> ''int''
      | PStr s \<Rightarrow> ''str''
      | PList xs \<Rightarrow> ''list''
      | PDict d \<Rightarrow> ''dict'')"

text \<open>\<open>d.get(k, default)\<close> on a dict.\<close>

definition dict_get :: "pydict \<Rightarrow> string \<Rightarrow> pyval \<Rightarrow> pyval" where
  "dict_get d k dflt = (case map_of d k of None \<Rightarrow> dflt | Some v \<Rightarrow> v)"

text \<open>\<open>v.get(k, default)\<close> on any value: only a dict has the method.\<close>

definition no_get_attribute :: "pyval \<Rightarrow> exn" where
  "no_get_attribute v =
     Exn AttributeError
       ([CHR 0x27] @ type_name v @ [CHR 0x27] @ '' object has no attribute '' @
        [CHR 0x27] @ ''get'' @ [CHR 0x27])"

definition val_get :: "pyval \<Rightarrow> string \<Rightarrow> pyval \<Rightarrow> exn + pyval" where
  "val_get v k dflt =
     (case v of
        PDict d \<Rightarrow> Inr (dict_get d k dflt)
      | _ \<Rightarrow> Inl (no_get_attribute v))"

text \<open>
  \<open>for x in v\<close>: the elements of a list, the keys of a dict, the characters of a string;
  the other values are not iterable.
\<close>

definition py_iter :: "pyval \<Rightarrow> exn + pyval list" where
  "py_iter v =
     (case v of
        PList xs \<Rightarrow> Inr xs
      | PDict d \<Rightarrow> Inr (map (\<lambda>(k, x). PStr k) d)
      | PStr s \<Rightarrow> Inr (map (\<lambda>c. PStr [c]) s)
      | _ \<Rightarrow>
          Inl (Exn TypeError
            ([CHR 0x27] @ type_name v @ [CHR 0x27] @ '' object is not iterable'')))"

section \<open>teams/bakery\_team/bakery\_leader.py\<close>

record 'w bakery_leader = "'w leader" +
  bakery_name :: string
  specialties :: "string list"

text \<open>
  A planning step reads and advances \<open>task_counter\<close>, reads the clock when it builds a
  \<open>Task\<close>, and may raise; what it has written by then stays.
\<close>

type_synonym ('w, 'z, 'a) planning =
  "('w, 'z) leader_scheme \<Rightarrow> 'w env \<Rightarrow> (exn + 'a) \<times> ('w, 'z) leader_scheme \<times> 'w env"

definition next_task_id :: "('w, 'z) leader_scheme \<Rightarrow> string \<times> ('w, 'z) leader_scheme" where
  "next_task_id L =
     (''task_'' @ str_nat (task_counter L + 1), L\<lparr>task_counter := task_counter L + 1\<rparr>)"

text \<open>The body of a \<open>for\<close> loop that appends one task per element.\<close>

fun plan_each ::
  "(pyval \<Rightarrow> ('w, 'z, task) planning) \<Rightarrow> pyval list \<Rightarrow> ('w, 'z, task list) planning" where
  "plan_each body [] L e = (Inr [], L, e)"
| "plan_each body (x # xs) L e =
     (case body x L e of
        (Inl err, L', e') \<Rightarrow> (Inl err, L', e')
      | (Inr t, L', e') \<Rightarrow>
          (case plan_each body xs L' e' of
             (Inl err, L'', e'') \<Rightarrow> (Inl err, L'', e'')
           | (Inr ts, L'', e'') \<Rightarrow> (Inr (t # ts), L'', e'')))"

definition scale_recipe_task :: "pyval \<Rightarrow> ('w, 'z, task) planning" where
  "scale_recipe_task recipe L e =
     (case next_task_id L of (tid, L1) \<Rightarrow>
        (case val_get recipe ''name'' (PStr ''Unknown'') of
           Inl err \<Rightarrow> (Inl err, L1, e)
         | Inr nm \<Rightarrow>
             (case val_get recipe ''target_servings'' (PInt 100) of
                Inl err \<Rightarrow> (Inl err, L1, e)
              | Inr servings \<Rightarrow>
                  (case Task tid [Lit ''Scale recipe: '', Interp nm] ''recipe_scale'' MEDIUM None
                          [(''action'', PStr ''scale''), (''recipe'', recipe),
                           (''servings'', servings)] e of
                     (t, e') \<Rightarrow> (Inr t, L1, e')))))"

definition plan_production_planning :: "pydict \<Rightarrow> ('w, 'z, task list) planning" where
  "plan_production_planning context L e =
     (case next_task_id L of (tid, L1) \<Rightarrow>
      case Task tid [Lit ''Forecast product demand''] ''sales_forecasting'' HIGH None
             [(''historical_data'', dict_get context ''sales_data'' (PList [])),
              (''forecast_days'', dict_get context ''forecast_days'' (PInt 7))] e of
        (t1, e1) \<Rightarrow>
          (case py_iter (dict_get context ''recipes'' (PList [])) of
             Inl err \<Rightarrow> (Inl err, L1, e1)
           | Inr recipes_to_scale \<Rightarrow>
               (case plan_each scale_recipe_task recipes_to_scale L1 e1 of
                  (Inl err, L2, e2) \<Rightarrow> (Inl err, L2, e2)
                | (Inr scaled, L2, e2) \<Rightarrow>
                    if truthy (dict_get context ''generate_report'' (PBool True))
                    then
                      (case next_task_id L2 of (tid3, L3) \<Rightarrow>
                       case Task tid3 [Lit ''Generate production report''] ''production_report''
                              MEDIUM None [(''products'', dict_get context ''products'' (PList []))]
                              e2 of
                         (t3, e3) \<Rightarrow> (Inr (t1 # scaled @ [t3]), L3, e3))
                    else (Inr (t1 # scaled), L2, e2))))"

definition plan_custom_order :: "pydict \<Rightarrow> ('w, 'z, task list) planning" where
  "plan_custom_order context L e =
     (case next_task_id L of (tid, L1) \<Rightarrow>
        (case dict_get context ''order'' (PDict []) of
           PDict order_details \<Rightarrow>
             (case Task tid [Lit ''Respond to custom order inquiry''] ''customer_support'' HIGH None
                     [(''message'', dict_get order_details ''message'' (PStr [])),
                      (''customer_email'', dict_get order_details ''customer_email'' (PStr []))]
                     e of
                (t1, e1) \<Rightarrow>
                  (case (if truthy (dict_get order_details ''recipe'' PNone)
                         then (case next_task_id L1 of (tid2, L2) \<Rightarrow>
                                 (case Task tid2 [Lit ''Check allergens in recipe'']
                                         ''recipe_allergens'' HIGH None
                                         [(''action'', PStr ''allergens''),
                                          (''recipe'', dict_get order_details ''recipe'' PNone)]
                                         e1 of
                                    (t2, e2) \<Rightarrow> ([t2], L2, e2)))
                         else ([], L1, e1)) of
                     (allergens, L2, e2) \<Rightarrow>
                       if truthy (dict_get order_details ''nutrition_info'' (PBool False))
                       then
                         (case next_task_id L2 of (tid3, L3) \<Rightarrow>
                            (case Task tid3 [Lit ''Calculate nutrition information'']
                                    ''recipe_nutrition'' MEDIUM None
                                    [(''action'', PStr ''nutrition''),
                                     (''recipe'', dict_get order_details ''recipe'' (PDict []))]
                                    e2 of
                               (t3, e3) \<Rightarrow> (Inr (t1 # allergens @ [t3]), L3, e3)))
                       else (Inr (t1 # allergens), L2, e2)))
         | other \<Rightarrow> (Inl (no_get_attribute other), L1, e)))"

definition quality_check_task :: "pyval \<Rightarrow> ('w, 'z, task) planning" where
  "quality_check_task product L e =
     (case next_task_id L of (tid, L1) \<Rightarrow>
        (case val_get product ''name'' (PStr ''Unknown'') of
           Inl err \<Rightarrow> (Inl err, L1, e)
         | Inr nm \<Rightarrow>
             (case val_get product ''type'' (PStr ''cake'') of
                Inl err \<Rightarrow> (Inl err, L1, e)
              | Inr ty \<Rightarrow>
                  (case val_get product ''image'' (PStr []) of
                     Inl err \<Rightarrow> (Inl err, L1, e)
                   | Inr img \<Rightarrow>
                       (case val_get product ''description'' (PStr []) of
                          Inl err \<Rightarrow> (Inl err, L1, e)
                        | Inr descr \<Rightarrow>
                            (case Task tid [Lit ''Quality check: '', Interp nm] ''quality_control''
                                    HIGH None
                                    [(''product_type'', ty), (''image_path'', img),
                                     (''description'', descr)] e of
                               (t, e') \<Rightarrow> (Inr t, L1, e')))))))"

definition plan_quality_check :: "pydict \<Rightarrow> ('w, 'z, task list) planning" where
  "plan_quality_check context L e =
     (case py_iter (dict_get context ''products'' (PList [])) of
        Inl err \<Rightarrow> (Inl err, L, e)
      | Inr products \<Rightarrow> plan_each quality_check_task products L e)"

text \<open>
  \<open>task_type_map.get(action, 'recipe_scale')\<close>: a list or a dict as key is not hashable;
  a key that is not one of the five strings gives the default.
\<close>

definition task_type_map :: "(string \<times> string) list" where
  "task_type_map =
     [(''scale'', ''recipe_scale''), (''substitute'', ''recipe_substitute''),
      (''allergens'', ''recipe_allergens''), (''nutrition'', ''recipe_nutrition''),
      (''optimize'', ''recipe_optimize'')]"

definition task_type_for :: "pyval \<Rightarrow> exn + string" where
  "task_type_for action =
     (case action of
        PStr s \<Rightarrow> Inr (case map_of task_type_map s of None \<Rightarrow> ''recipe_scale'' | Some ty \<Rightarrow> ty)
      | PList xs \<Rightarrow> Inl (Exn TypeError (''unhashable type: '' @ [CHR 0x27] @ ''list'' @ [CHR 0x27]))
      | PDict d \<Rightarrow> Inl (Exn TypeError (''unhashable type: '' @ [CHR 0x27] @ ''dict'' @ [CHR 0x27]))
      | _ \<Rightarrow> Inr ''recipe_scale'')"

definition plan_recipe_management :: "pydict \<Rightarrow> ('w, 'z, task list) planning" where
  "plan_recipe_management context L e =
     (let action = dict_get context ''action'' (PStr ''scale'');
          recipe = dict_get context ''recipe'' (PDict [])
      in case next_task_id L of (tid, L1) \<Rightarrow>
         case val_get recipe ''name'' (PStr ''Unknown'') of
           Inl err \<Rightarrow> (Inl err, L1, e)
         | Inr nm \<Rightarrow>
             (case task_type_for action of
                Inl err \<Rightarrow> (Inl err, L1, e)
              | Inr ty \<Rightarrow>
                  (case Task tid [Lit ''Recipe '', Interp action, Lit '': '', Interp nm] ty MEDIUM None
                          ([(''action'', action), (''recipe'', recipe)] @
                           filter (\<lambda>(k, v). k \<noteq> ''action'' \<and> k \<noteq> ''recipe'') context) e of
                     (t, e') \<Rightarrow> (Inr [t], L1, e'))))"

definition plan_demand_forecast :: "pydict \<Rightarrow> ('w, 'z, task list) planning" where
  "plan_demand_forecast context L e =
     (case next_task_id L of (tid, L1) \<Rightarrow>
      case Task tid [Lit ''Forecast product demand''] ''sales_forecasting'' MEDIUM None
             [(''historical_data'', dict_get context ''sales_data'' (PList [])),
              (''forecast_days'', dict_get context ''forecast_days'' (PInt 30))] e of
        (t, e') \<Rightarrow> (Inr [t], L1, e'))"

definition inquiry_task :: "pyval \<Rightarrow> ('w, 'z, task) planning" where
  "inquiry_task inquiry L e =
     (case next_task_id L of (tid, L1) \<Rightarrow>
        (case val_get inquiry ''subject'' (PStr ''General'') of
           Inl err \<Rightarrow> (Inl err, L1, e)
         | Inr subject \<Rightarrow>
             (case val_get inquiry ''message'' (PStr []) of
                Inl err \<Rightarrow> (Inl err, L1, e)
              | Inr message \<Rightarrow>
                  (case val_get inquiry ''customer_email'' (PStr []) of
                     Inl err \<Rightarrow> (Inl err, L1, e)
                   | Inr email \<Rightarrow>
                       (case Task tid [Lit ''Handle inquiry: '', Interp subject]
                               ''customer_support'' MEDIUM None
                               [(''message'', message), (''customer_email'', email)] e of
                          (t, e') \<Rightarrow> (Inr t, L1, e'))))))"

definition plan_customer_service :: "pydict \<Rightarrow> ('w, 'z, task list) planning" where
  "plan_customer_service context L e =
     (case py_iter (dict_get context ''inquiries'' (PList [PDict context])) of
        Inl err \<Rightarrow> (Inl err, L, e)
      | Inr inquiries \<Rightarrow> plan_each inquiry_task inquiries L e)"

definition plan_daily_operations :: "pydict \<Rightarrow> ('w, 'z, task list) planning" where
  "plan_daily_operations context L e =
     (case (if truthy (dict_get context ''plan_production'' (PBool True))
            then plan_production_planning
                   [(''sales_data'', dict_get context ''sales_data'' (PList [])),
                    (''recipes'', dict_get context ''recipes'' (PList [])),
                    (''forecast_days'', PInt 1), (''generate_report'', PBool False)] L e
            else (Inr [], L, e)) of
        (Inl err, L1, e1) \<Rightarrow> (Inl err, L1, e1)
      | (Inr production, L1, e1) \<Rightarrow>
          (case (if truthy (dict_get context ''products_to_check'' PNone)
                 then plan_quality_check
                        [(''products'', dict_get context ''products_to_check'' PNone)] L1 e1
                 else (Inr [], L1, e1)) of
             (Inl err, L2, e2) \<Rightarrow> (Inl err, L2, e2)
           | (Inr checks, L2, e2) \<Rightarrow>
               (case (if truthy (dict_get context ''inquiries'' PNone)
                      then plan_customer_service
                             [(''inquiries'', dict_get context ''inquiries'' PNone)] L2 e2
                      else (Inr [], L2, e2)) of
                  (Inl err, L3, e3) \<Rightarrow> (Inl err, L3, e3)
                | (Inr service, L3, e3) \<Rightarrow> (Inr (production @ checks @ service), L3, e3))))"

definition plan_general_goal :: "string \<Rightarrow> pydict \<Rightarrow> ('w, 'z, task list) planning" where
  "plan_general_goal goal context L e =
     (case next_task_id L of (tid, L1) \<Rightarrow>
      case Task tid [Lit goal] ''general'' MEDIUM None context e of
        (t, e') \<Rightarrow> (Inr [t], L1, e'))"

text \<open>\<open>BakeryLeader.plan_tasks\<close>: \<open>context or {}\<close>, then the first branch whose trigger is in the lowered goal.\<close>

definition BakeryLeader_plan_tasks :: "('w, 'z) planner" where
  "BakeryLeader_plan_tasks L e goal context_opt =
     (let context = (case context_opt of None \<Rightarrow> [] | Some c \<Rightarrow> c);
          goal_lower = lower goal
      in if contains ''production'' goal_lower \<or> contains ''plan'' goal_lower
         then plan_production_planning context L e
         else if contains ''custom'' goal_lower \<or> contains ''order'' goal_lower
         then plan_custom_order context L e
         else if contains ''quality'' goal_lower \<or> contains ''inspection'' goal_lower
         then plan_quality_check context L e
         else if contains ''recipe'' goal_lower
         then plan_recipe_management context L e
         else if contains ''forecast'' goal_lower \<or> contains ''demand'' goal_lower
         then plan_demand_forecast context L e
         else if contains ''customer'' goal_lower \<or> contains ''inquiry'' goal_lower
         then plan_customer_service context L e
         else if contains ''daily'' goal_lower
         then plan_daily_operations context L e
         else plan_general_goal goal context L e)"

text \<open>The trigger words of \<open>plan_tasks\<close>, in the order of its branches.\<close>

definition bakery_triggers :: "string list" where
  "bakery_triggers =
     [''production'', ''plan'', ''custom'', ''order'', ''quality'', ''inspection'', ''recipe'',
      ''forecast'', ''demand'', ''customer'', ''inquiry'', ''daily'']"


section \<open>The success rate as Python computes it\<close>

text \<open>
  \<open>len(successful_tasks) / len(tasks) * 100\<close> is computed in binary64 and printed with
  \<open>:.1f\<close>. A non-negative finite double is a pair \<open>(m, e)\<close> standing for \<open>m * 2 ^ e\<close> with
  \<open>m < 2 ^ 53\<close>. Division of two ints and multiplication round the exact result to the
  nearest double, ties to even; \<open>:.1f\<close> rounds the exact value of the double to the nearest
  tenth, ties to even. The exponent range is not modelled: the values here lie between
  \<open>0\<close> and \<open>100\<close>.
\<close>

fun bits :: "nat \<Rightarrow> nat" where
  "bits n = (if n = 0 then 0 else Suc (bits (n div 2)))"

text \<open>\<open>n / d\<close> rounded to the nearest integer, ties to even.\<close>

definition round_half_even :: "nat \<Rightarrow> nat \<Rightarrow> nat" where
  "round_half_even n d =
     (let q = n div d; r = n mod d
      in if 2 * r < d then q else if d < 2 * r then q + 1 else if even q then q else q + 1)"

text \<open>Numerator and denominator of \<open>n / d * 2 ^ s\<close>.\<close>

definition scaled :: "nat \<Rightarrow> nat \<Rightarrow> int \<Rightarrow> nat \<times> nat" where
  "scaled n d s = (if 0 \<le> s then (n * 2 ^ nat s, d) else (n, d * 2 ^ nat (- s)))"

type_synonym double = "nat \<times> int"

text \<open>The double nearest to \<open>n / d\<close>, for \<open>d > 0\<close>.\<close>

definition to_double :: "nat \<Rightarrow> nat \<Rightarrow> double" where
  "to_double n d =
     (if n = 0 then (0, 0)
      else
        (let s0 = 53 - int (bits n) + int (bits d);
             s = (case scaled n d s0 of (a, b) \<Rightarrow> if 2 ^ 53 \<le> a div b then s0 - 1 else s0);
             m = (case scaled n d s of (a, b) \<Rightarrow> round_half_even a b)
         in if m = 2 ^ 53 then (2 ^ 52, 1 - s) else (m, - s)))"

definition double_times :: "double \<Rightarrow> nat \<Rightarrow> double" where
  "double_times x k = (case x of (m, e) \<Rightarrow> (case scaled (m * k) 1 e of (n, d) \<Rightarrow> to_double n d))"

definition format_1f :: "double \<Rightarrow> string" where
  "format_1f x =
     (case x of (m, e) \<Rightarrow>
        (case scaled (10 * m) 1 e of (n, d) \<Rightarrow>
           (let tenths = round_half_even n d
            in str_nat (tenths div 10) @ ''.'' @ str_nat (tenths mod 10))))"

text \<open>\<open>f"{successful / total * 100:.1f}%" if tasks else "0%"\<close>.\<close>

definition success_rate_of :: "nat \<Rightarrow> nat \<Rightarrow> string" where
  "success_rate_of n_successful n_total =
     (if n_total = 0 then ''0%''
      else format_1f (double_times (to_double n_successful n_total) 100) @ ''%'')"

section \<open>BakeryLeader.aggregate\_results\<close>

record summary_dict =
  total_tasks :: nat
  successful :: nat
  failed :: nat
  success_rate :: string

record result_entry =
  r_task_id :: string
  r_description :: "fpart list"
  r_assigned_to :: "string option"
  r_result :: pyval

record failure_entry =
  f_task_id :: string
  f_description :: "fpart list"
  f_error :: "string option"

record metrics_dict =
  recipes_managed :: nat
  quality_checks_passed :: nat
  customer_inquiries_handled :: nat
  production_plans_created :: nat
  forecasts_generated :: nat

record report =
  team :: string
  bakery :: string
  summary :: summary_dict
  results :: "(string \<times> result_entry list) list"
  failures :: "failure_entry list"
  operational_metrics :: metrics_dict

definition count_task :: "metrics_dict \<Rightarrow> task \<Rightarrow> metrics_dict" where
  "count_task metrics t =
     (if contains ''recipe'' (task_type t)
      then metrics\<lparr>recipes_managed := recipes_managed metrics + 1\<rparr>
      else if task_type t = ''quality_control''
      then metrics\<lparr>quality_checks_passed := quality_checks_passed metrics + 1\<rparr>
      else if task_type t = ''customer_support''
      then metrics\<lparr>customer_inquiries_handled := customer_inquiries_handled metrics + 1\<rparr>
      else if task_type t = ''production_report''
      then metrics\<lparr>production_plans_created := production_plans_created metrics + 1\<rparr>
      else if task_type t = ''sales_forecasting''
      then metrics\<lparr>forecasts_generated := forecasts_generated metrics + 1\<rparr>
      else metrics)"

definition calculate_operational_metrics :: "task list \<Rightarrow> metrics_dict" where
  "calculate_operational_metrics ts =
     foldl count_task
       \<lparr>recipes_managed = 0, quality_checks_passed = 0, customer_inquiries_handled = 0,
        production_plans_created = 0, forecasts_generated = 0\<rparr> ts"

text \<open>The loop that files each successful task under its type.\<close>

definition file_result ::
  "(string \<times> result_entry list) list \<Rightarrow> task \<Rightarrow> (string \<times> result_entry list) list" where
  "file_result res t =
     update_member (task_type t)
       (\<lambda>entries. entries @
          [\<lparr>r_task_id = task_id t, r_description = description t,
            r_assigned_to = assigned_to t, r_result = result t\<rparr>])
       (if task_type t \<in> fst ` set res then res else dict_set (task_type t) [] res)"

text \<open>\<open>aggregate_results\<close> never raises; \<open>execute_goal\<close> takes it wrapped in \<open>Inr\<close>.\<close>

definition BakeryLeader_aggregate_results ::
  "('w, 'z) bakery_leader_scheme \<Rightarrow> task list \<Rightarrow> report" where
  "BakeryLeader_aggregate_results L ts =
     (let successful_tasks = filter (\<lambda>t. status t = COMPLETED) ts;
          failed_tasks = filter (\<lambda>t. status t = FAILED) ts
      in \<lparr>team = team_name L,
          bakery = bakery_name L,
          summary =
            \<lparr>total_tasks = length ts,
             successful = length successful_tasks,
             failed = length failed_tasks,
             success_rate = success_rate_of (length successful_tasks) (length ts)\<rparr>,
          results = foldl file_result [] successful_tasks,
          failures =
            map (\<lambda>t. \<lparr>f_task_id = task_id t, f_description = description t,
                       f_error = error t\<rparr>) failed_tasks,
          operational_metrics = calculate_operational_metrics successful_tasks\<rparr>)"


section \<open>Example teams\<close>

definition ok_worker :: "nat agent" where
  "ok_worker = \<lparr>agent_execute = (\<lambda>kw w. (Inr (PStr ''done''), Suc w)), agent_initialize = None\<rparr>"

definition failing_worker :: "nat agent" where
  "failing_worker =
     \<lparr>agent_execute = (\<lambda>kw w. (Inl (Exn OtherException ''boom''), Suc w)),
      agent_initialize = None\<rparr>"

definition exiting_worker :: "nat agent" where
  "exiting_worker =
     \<lparr>agent_execute = (\<lambda>kw w. (Inl (Exn SystemExit ''stop''), Suc w)),
      agent_initialize = None\<rparr>"

definition empty_leader :: "nat leader" where
  "empty_leader =
     \<lparr>team_name = ''demo'', team_members = [], tasks = [], task_counter = 0, initialized = False\<rparr>"

definition start_env :: "nat env" where
  "start_env = \<lparr>clock = 0, delays = [], world = 0\<rparr>"

definition new_task :: "string \<Rightarrow> string \<Rightarrow> task" where
  "new_task tid ty =
     \<lparr>task_id = tid, description = [Lit ''demo''], task_type = ty, priority = MEDIUM,
      assigned_to = None, status = PENDING, created_at = 0, completed_at = None,
      result = PNone, error = None, metadata = []\<rparr>"

definition fixed_plan :: "task list \<Rightarrow> (nat, unit) planner" where
  "fixed_plan ts = (\<lambda>L e goal ctx. (Inr ts, L, e))"

definition status_report :: "(nat, unit, TaskStatus list) aggregator" where
  "status_report = (\<lambda>L ts. Inr (map status ts))"

definition mixed_team :: "nat leader" where
  "mixed_team =
     register_agent ''B'' ok_worker [''y'']
       (register_agent ''A'' failing_worker [''x''] empty_leader)"

definition twin_team :: "nat leader" where
  "twin_team =
     register_agent ''B'' ok_worker [''x'']
       (register_agent ''A'' ok_worker [''x''] empty_leader)"

definition exit_team :: "nat leader" where
  "exit_team =
     register_agent ''B'' ok_worker [''y'']
       (register_agent ''A'' exiting_worker [''x''] empty_leader)"

definition nameless_team :: "nat leader" where
  "nameless_team =
     register_agent [] ok_worker [''y'']
       (register_agent ''A'' failing_worker [''x''] empty_leader)"

definition two_tasks :: "task list" where
  "two_tasks = [new_task ''task_1'' ''x'', new_task ''task_2'' ''y'']"

definition task_summary :: "(string \<times> task) \<Rightarrow> string \<times> string option \<times> TaskStatus \<times> string option" where
  "task_summary kt = (fst kt, assigned_to (snd kt), status (snd kt), error (snd kt))"

section \<open>Example schedulers\<close>

definition fresh_scheduler :: "string list scheduler" where
  "fresh_scheduler =
     \<lparr>scheduler_name = ''TaskSchedulerAgent'', scheduler_initialized = False,
      state_tasks = [], state_running = False, state_history = [], logged = []\<rparr>"

text \<open>Scheduled functions that note their call in the world; the second one raises.\<close>

definition noting_call ::
  "string \<Rightarrow> pyval list \<Rightarrow> pydict \<Rightarrow> string list \<Rightarrow> (exn + pyval) \<times> string list" where
  "noting_call tag as kw w = (Inr PNone, w @ [tag])"


definition ticking_env :: "string list env" where
  "ticking_env = \<lparr>clock = 0, delays = [10, 20, 30, 40, 50, 60, 70, 80], world = []\<rparr>"

definition one_job :: "string list scheduler \<times> string list env" where
  "one_job =
     add_task ''job'' (noting_call ''job'') [] [] (Some 5) None None True
       fresh_scheduler ticking_env"






section \<open>Example bakery\<close>

text \<open>\<open>BakeryLeader()\<close> with no config and no registered agent.\<close>

definition artisan_bakery :: "nat bakery_leader" where
  "artisan_bakery =
     \<lparr>team_name = ''Bakery Operations Team'', team_members = [], tasks = [], task_counter = 0,
      initialized = False, bakery_name = ''Artisan Bakery'',
      specialties = [''bread'', ''cakes'', ''pastries'']\<rparr>"


text \<open>The bakery with two workers for the \<open>general\<close> task type.\<close>

definition staffed_bakery :: "nat bakery_leader" where
  "staffed_bakery =
     register_agent ''B'' ok_worker [''general'']
       (register_agent ''A'' ok_worker [''general''] artisan_bakery)"

definition bakery_report :: "(nat, unit bakery_leader_ext, report) aggregator" where
  "bakery_report = (\<lambda>L ts. Inr (BakeryLeader_aggregate_results L ts))"


section \<open>Delegation and execution: proofs\<close>

lemma py_min_by_le_best: "k (py_min_by k b xs) \<le> k b"
proof (induction xs arbitrary: b)
  case Nil show ?case by simp
next
  case (Cons x xs)
  show ?case
  proof (cases "k x < k b")
    case True
    have "k (py_min_by k x xs) \<le> k x" by (rule Cons.IH)
    with True show ?thesis by simp
  next
    case False
    then show ?thesis using Cons.IH[of b] by simp
  qed
qed

lemma py_min_by_split:
  "\<exists>pre post. b # xs = pre @ py_min_by k b xs # post \<and>
     (\<forall>y\<in>set pre. k (py_min_by k b xs) < k y) \<and>
     (\<forall>y\<in>set post. k (py_min_by k b xs) \<le> k y)"
proof (induction xs arbitrary: b)
  case Nil
  show ?case by (rule exI[of _ "[]"]) simp
next
  case (Cons x xs)
  show ?case
  proof (cases "k x < k b")
    case True
    define m where "m = py_min_by k x xs"
    from Cons.IH[of x] obtain pre post where
      s: "x # xs = pre @ m # post"
      and p: "\<forall>y\<in>set pre. k m < k y"
      and q: "\<forall>y\<in>set post. k m \<le> k y" unfolding m_def by blast
    have "k m \<le> k x" unfolding m_def by (rule py_min_by_le_best)
    with True have lt: "k m < k b" by simp
    have e: "py_min_by k b (x # xs) = m" using True by (simp add: m_def)
    have "b # x # xs = (b # pre) @ m # post" using s by simp
    moreover have "\<forall>y\<in>set (b # pre). k m < k y" using p lt by simp
    ultimately show ?thesis unfolding e using q by blast
  next
    case False
    define m where "m = py_min_by k b xs"
    have e: "py_min_by k b (x # xs) = m" using False by (simp add: m_def)
    from Cons.IH[of b] obtain pre post where
      s: "b # xs = pre @ m # post"
      and p: "\<forall>y\<in>set pre. k m < k y"
      and q: "\<forall>y\<in>set post. k m \<le> k y" unfolding m_def by blast
    show ?thesis
    proof (cases pre)
      case Nil
      with s have mb: "m = b" and po: "post = xs" by simp_all
      have "b # x # xs = [] @ m # (x # xs)" using mb by simp
      moreover have "\<forall>y\<in>set (x # xs). k m \<le> k y" using q mb po False by auto
      ultimately show ?thesis unfolding e by (metis empty_iff list.set(1))
    next
      case (Cons a as)
      with s have a: "a = b" and r: "xs = as @ m # post" by simp_all
      have lt: "k m < k b" using p Cons a by simp
      have "b # x # xs = (b # x # as) @ m # post" using r by simp
      moreover have "\<forall>y\<in>set (b # x # as). k m < k y"
        using p Cons a lt False by auto
      ultimately show ?thesis unfolding e using q by blast
    qed
  qed
qed

lemma capable_agents_update_member:
  assumes "\<And>d. capabilities (f d) = capabilities d"
  shows "capable_agents (L\<lparr>team_members := update_member n f (team_members L)\<rparr>) ty =
         update_member n f (capable_agents L ty)"
  using assms
  by (simp add: capable_agents_def update_member_def filter_map comp_def case_prod_unfold)

lemma delegate_task_chooses:
  assumes "capable_agents L (task_type t) \<noteq> []"
  shows "\<exists>pre n d post. capable_agents L (task_type t) = pre @ (n, d) # post \<and>
     (\<forall>y\<in>set pre. tasks_assigned d < tasks_assigned (snd y)) \<and>
     (\<forall>y\<in>set post. tasks_assigned d \<le> tasks_assigned (snd y)) \<and>
     delegate_task L t =
       (True, t\<lparr>assigned_to := Some n, status := DELEGATED\<rparr>,
        L\<lparr>team_members := update_member n (\<lambda>d. d\<lparr>tasks_assigned := tasks_assigned d + 1\<rparr>)
             (team_members L)\<rparr>)"
proof -
  from assms obtain c cs where cs: "capable_agents L (task_type t) = c # cs"
    by (cases "capable_agents L (task_type t)") auto
  obtain n d where m: "py_min_by (\<lambda>x. tasks_assigned (snd x)) c cs = (n, d)"
    by (cases "py_min_by (\<lambda>x. tasks_assigned (snd x)) c cs") auto
  from py_min_by_split[of c cs "\<lambda>x. tasks_assigned (snd x)"] obtain pre post where
    "c # cs = pre @ (n, d) # post"
    "\<forall>y\<in>set pre. tasks_assigned d < tasks_assigned (snd y)"
    "\<forall>y\<in>set post. tasks_assigned d \<le> tasks_assigned (snd y)"
    unfolding m by auto
  moreover have "delegate_task L t =
       (True, t\<lparr>assigned_to := Some n, status := DELEGATED\<rparr>,
        L\<lparr>team_members := update_member n (\<lambda>d. d\<lparr>tasks_assigned := tasks_assigned d + 1\<rparr>)
             (team_members L)\<rparr>)"
    by (simp add: delegate_task_def cs m)
  ultimately show ?thesis unfolding cs by blast
qed

lemma delegate_all_two_workers:
  assumes "capable_agents L ty = [(a, da), (b, db)]" and "a \<noteq> b"
    and "tasks_assigned da = tasks_assigned db + p" and "p \<le> 1"
    and "\<forall>t\<in>set ts. task_type t = ty"
    and "delegate_all L ts = (ts', L')"
  shows "\<exists>da' db'. capable_agents L' ty = [(a, da'), (b, db')] \<and>
           tasks_assigned da' = tasks_assigned da + (length ts + 1 - p) div 2 \<and>
           tasks_assigned db' = tasks_assigned db + (length ts + p) div 2 \<and>
           length (filter (\<lambda>t. assigned_to t = Some a) ts') = (length ts + 1 - p) div 2 \<and>
           length (filter (\<lambda>t. assigned_to t = Some b) ts') = (length ts + p) div 2"
  using assms
proof (induction ts arbitrary: L da db p ts' L')
  case Nil
  then show ?case by auto
next
  case (Cons t ts)
  let ?inc = "\<lambda>d::'a agent_data. d\<lparr>tasks_assigned := tasks_assigned d + 1\<rparr>"
  have ty: "task_type t = ty" using Cons.prems(5) by simp
  have rest: "\<forall>t\<in>set ts. task_type t = ty" using Cons.prems(5) by simp
  show ?case
  proof (cases "p = 0")
    case True
    let ?L1 = "L\<lparr>team_members := update_member a ?inc (team_members L)\<rparr>"
    have d: "delegate_task L t = (True, t\<lparr>assigned_to := Some a, status := DELEGATED\<rparr>, ?L1)"
      using Cons.prems(1,3) True by (simp add: delegate_task_def ty)
    have c1: "capable_agents ?L1 ty = [(a, ?inc da), (b, db)]"
      using Cons.prems(1,2) by (simp add: capable_agents_update_member) (simp add: update_member_def)
    obtain ts1 where r: "delegate_all ?L1 ts = (ts1, L')" and t': "ts' = t\<lparr>assigned_to := Some a, status := DELEGATED\<rparr> # ts1"
      using Cons.prems(6) d by (auto split: prod.splits)
    have "tasks_assigned (?inc da) = tasks_assigned db + 1" using Cons.prems(3) True by simp
    from Cons.IH[OF c1 Cons.prems(2) this _ rest r]
    show ?thesis using True t' Cons.prems(2) by auto
  next
    case False
    then have p1: "p = 1" using Cons.prems(4) by simp
    let ?L1 = "L\<lparr>team_members := update_member b ?inc (team_members L)\<rparr>"
    have d: "delegate_task L t = (True, t\<lparr>assigned_to := Some b, status := DELEGATED\<rparr>, ?L1)"
      using Cons.prems(1,3) p1 by (simp add: delegate_task_def ty)
    have c1: "capable_agents ?L1 ty = [(a, da), (b, ?inc db)]"
      using Cons.prems(1,2) by (simp add: capable_agents_update_member) (simp add: update_member_def)
    obtain ts1 where r: "delegate_all ?L1 ts = (ts1, L')" and t': "ts' = t\<lparr>assigned_to := Some b, status := DELEGATED\<rparr> # ts1"
      using Cons.prems(6) d by (auto split: prod.splits)
    have "tasks_assigned da = tasks_assigned (?inc db) + 0" using Cons.prems(3) p1 by simp
    from Cons.IH[OF c1 Cons.prems(2) this _ rest r]
    show ?thesis using p1 t' Cons.prems(2) by auto
  qed
qed

lemma delegate_all_Cons_fst:
  "fst (delegate_all L (t # ts)) =
     fst (snd (delegate_task L t)) # fst (delegate_all (snd (snd (delegate_task L t))) ts)"
  by (simp split: prod.splits)

lemma delegate_all_Cons_snd:
  "snd (delegate_all L (t # ts)) = snd (delegate_all (snd (snd (delegate_task L t))) ts)"
  by (simp split: prod.splits)

lemma delegate_all_length: "length (fst (delegate_all L ts)) = length ts"
  by (induction ts arbitrary: L) (simp_all add: delegate_all_Cons_fst del: delegate_all.simps(2))

lemma delegate_all_nth:
  "i < length ts \<Longrightarrow>
   fst (delegate_all L ts) ! i =
     fst (snd (delegate_task (snd (delegate_all L (take i ts))) (ts ! i)))"
proof (induction ts arbitrary: L i)
  case Nil
  then show ?case by simp
next
  case (Cons t ts)
  show ?case
  proof (cases i)
    case 0
    then show ?thesis by (simp add: delegate_all_Cons_fst del: delegate_all.simps(2))
  next
    case (Suc k)
    with Cons.prems have "k < length ts" by simp
    from Cons.IH[OF this] show ?thesis using Suc
      by (simp add: delegate_all_Cons_fst delegate_all_Cons_snd del: delegate_all.simps(2))
  qed
qed

lemma escapes_Inr [simp]: "escapes (Inr v) = None"
  by (simp add: escapes_def)

lemma escapes_Inl [simp]: "escapes (Inl x) = (if is_exception x then None else Some x)"
  by (simp add: escapes_def)

lemma escapes_Some_iff: "(escapes r = Some y) = (r = Inl y \<and> \<not> is_exception y)"
  by (cases r) auto

lemma execute_all_length:
  "execute_all L e ts = (raised, fin, rest) \<Longrightarrow> length fin = length ts"
proof (induction ts arbitrary: L e raised fin rest)
  case Nil
  then show ?case by simp
next
  case (Cons t ts)
  obtain r t' L' e' where x: "execute_task L e t = (r, t', L', e')"
    by (cases "execute_task L e t") auto
  show ?case
  proof (cases "escapes r")
    case (Some y)
    with Cons.prems x show ?thesis by auto
  next
    case None
    obtain raised1 fin1 rest1 where y: "execute_all L' e' ts = (raised1, fin1, rest1)"
      by (cases "execute_all L' e' ts") auto
    from Cons.IH[OF y] Cons.prems x None y show ?thesis by (auto split: prod.splits)
  qed
qed

lemma execute_all_raised:
  "execute_all L e ts = (Some y, rest) \<Longrightarrow> \<not> is_exception y"
proof (induction ts arbitrary: L e rest)
  case Nil
  then show ?case by simp
next
  case (Cons t ts)
  obtain r t' L' e' where x: "execute_task L e t = (r, t', L', e')"
    by (cases "execute_task L e t") auto
  show ?case
  proof (cases "escapes r")
    case (Some z)
    with Cons.prems x have "z = y" by simp
    with Some show ?thesis by (simp add: escapes_Some_iff)
  next
    case None
    obtain raised1 rest1 where y: "execute_all L' e' ts = (raised1, rest1)"
      by (cases "execute_all L' e' ts") auto
    with Cons.prems x None have "raised1 = Some y" by (auto split: prod.splits)
    with Cons.IH[of L' e' rest1] y show ?thesis by simp
  qed
qed

lemma execute_all_append:
  "execute_all L e (xs @ ys) =
     (case execute_all L e xs of
        (Some y, a, r, L1, e1) \<Rightarrow> (Some y, a @ ys, r, L1, e1)
      | (None, a, r, L1, e1) \<Rightarrow>
          (case execute_all L1 e1 ys of
             (raised, b, r2, L2, e2) \<Rightarrow> (raised, a @ b, r @ r2, L2, e2)))"
proof (induction xs arbitrary: L e)
  case Nil
  show ?case by (simp split: prod.splits)
next
  case (Cons x xs)
  obtain r t' L' e' where x: "execute_task L e x = (r, t', L', e')"
    by (cases "execute_task L e x") auto
  show ?case
  proof (cases "escapes r")
    case (Some y)
    with x show ?thesis by simp
  next
    case None
    with x Cons.IH[of L' e'] show ?thesis
      by (simp split: prod.splits option.splits sum.splits)
  qed
qed

lemma execute_all_snoc:
  assumes "execute_all L e xs = (None, a, r, L1, e1)"
    and "execute_task L1 e1 t = (out, t', L2, e2)"
    and "execute_all L2 e2 ys = (raised, b, r2, L3, e3)"
    and "escapes out = None"
  shows "\<exists>rs. execute_all L e (xs @ t # ys) = (raised, a @ t' # b, rs, L3, e3)"
  using assms by (simp add: execute_all_append)

text \<open>A record on which \<open>execute_task\<close> raises an \<open>Exception\<close> and writes nothing.\<close>

lemma execute_all_skip:
  assumes u: "\<And>L' e'. P L' \<Longrightarrow> \<exists>v. is_exception v \<and> execute_task L' e' u = (Inl v, u, L', e')"
    and inv: "\<And>L' e' t. P L' \<Longrightarrow> P (fst (snd (snd (execute_task L' e' t))))"
    and P: "P L"
  shows "execute_all L e (xs @ u # ys) =
     (case execute_all L e (xs @ ys) of
        (raised, fin, rest) \<Rightarrow>
          (raised, take (length xs) fin @ u # drop (length xs) fin, rest))"
  using P
proof (induction xs arbitrary: L e)
  case Nil
  from u[OF Nil, of e] obtain v where "is_exception v" "execute_task L e u = (Inl v, u, L, e)"
    by blast
  then show ?case by (simp split: prod.splits)
next
  case (Cons x xs)
  obtain r t' L' e' where x: "execute_task L e x = (r, t', L', e')"
    by (cases "execute_task L e x") auto
  have P': "P L'" using inv[OF Cons.prems, of e x] x by simp
  show ?case
  proof (cases "escapes r")
    case (Some y)
    with x show ?thesis by simp
  next
    case None
    with x Cons.IH[OF P', of e'] show ?thesis
      by (simp split: prod.splits)
  qed
qed

lemma capable_agents_store_tasks [simp]:
  "capable_agents (store_tasks ts L) ty = capable_agents L ty"
  by (simp add: capable_agents_def store_tasks_def)

lemma team_members_store_tasks [simp]:
  "team_members (store_tasks ts L) = team_members L"
  by (simp add: store_tasks_def)

lemma update_member_Nil_iff: "(update_member n f xs = []) = (xs = [])"
  by (simp add: update_member_def)

lemma delegate_task_capable_empty:
  "(capable_agents (snd (snd (delegate_task L t))) ty = []) = (capable_agents L ty = [])"
  by (simp add: delegate_task_def capable_agents_update_member update_member_Nil_iff
           split: list.splits prod.splits)

lemma delegate_all_capable_empty:
  "(capable_agents (snd (delegate_all L ts)) ty = []) = (capable_agents L ty = [])"
  by (induction ts arbitrary: L)
     (simp_all add: delegate_all_Cons_snd delegate_task_capable_empty del: delegate_all.simps(2))

lemma map_of_update_member:
  "map_of (update_member k f xs) n =
     (if n = k then map_option f (map_of xs n) else map_of xs n)"
  by (induction xs) (auto simp: update_member_def)

lemma keys_update_member: "fst ` set (update_member k f xs) = fst ` set xs"
  by (force simp: update_member_def)

lemma keys_delegate_task:
  "fst ` set (team_members (snd (snd (delegate_task L t)))) = fst ` set (team_members L)"
  by (simp add: delegate_task_def keys_update_member split: list.splits prod.splits)

lemma keys_delegate_all:
  "fst ` set (team_members (snd (delegate_all L ts))) = fst ` set (team_members L)"
  by (induction ts arbitrary: L)
     (simp_all add: delegate_all_Cons_snd keys_delegate_task del: delegate_all.simps(2))

lemma keys_execute_task:
  "fst ` set (team_members (fst (snd (snd (execute_task L e t))))) = fst ` set (team_members L)"
  by (simp add: execute_task_def Let_def keys_update_member
           split: option.splits prod.splits sum.splits)

lemma execute_task_not_invoked:
  assumes "\<forall>n. assigned_to t = Some n \<longrightarrow> n = [] \<or> n \<notin> fst ` set (team_members L)"
  shows "\<exists>msg. execute_task L e t = (Inl (Exn ValueError msg), t, L, e)"
proof (cases "assigned_to t = None \<or> assigned_to t = Some []")
  case True
  then show ?thesis by (simp add: execute_task_def)
next
  case False
  then obtain n where n: "assigned_to t = Some n" "n \<noteq> []" by auto
  with assms have "n \<notin> fst ` set (team_members L)" by simp
  then have "map_of (team_members L) n = None" by (simp add: map_of_eq_None_iff)
  with n show ?thesis by (simp add: execute_task_def)
qed

lemma delegate_task_no_capable:
  "capable_agents L (task_type t) = [] \<Longrightarrow>
   delegate_task L t =
     (False, t\<lparr>status := FAILED,
               error := Some (''No agent available for task type: '' @ task_type t)\<rparr>, L)"
  by (simp add: delegate_task_def)

text \<open>
  Claim C3 as stated fails. \<open>Task\<close> accepts \<open>assigned_to\<close>, the branch of
  \<open>delegate_task\<close> for a type that nobody handles does not clear it, and \<open>execute_task\<close>
  looks at \<open>assigned_to\<close> only. A planner that emits a task of the unhandled type \<open>z\<close>
  already assigned to the registered worker \<open>B\<close>: \<open>delegate_task\<close> returns false and
  writes the error, and then the execution loop invokes \<open>B\<close> for the task (the world
  counts one call), which ends \<open>COMPLETED\<close>.
\<close>

theorem preassigned_unroutable_task_is_executed:
  "capable_agents mixed_team ''z'' = [] \<and>
   fst (delegate_task mixed_team ((new_task ''task_1'' ''z'')\<lparr>assigned_to := Some ''B''\<rparr>)) = False \<and>
   (case execute_goal (fixed_plan [(new_task ''task_1'' ''z'')\<lparr>assigned_to := Some ''B''\<rparr>])
           status_report mixed_team start_env ''demo goal'' None of
      (r, L', e') \<Rightarrow>
        r = Inr [COMPLETED] \<and>
        map task_summary (tasks L') =
          [(''task_1'', Some ''B'', COMPLETED, Some ''No agent available for task type: z'')] \<and>
        map (\<lambda>kt. result (snd kt)) (tasks L') = [PStr ''done''] \<and>
        world e' = 1)"
  by (simp add: execute_goal_def initialize_def mixed_team_def register_agent_def
        empty_leader_def failing_worker_def ok_worker_def start_env_def fixed_plan_def
        status_report_def store_tasks_def delegate_task_def capable_agents_def new_task_def
        execute_task_def Let_def now_def update_member_def task_summary_def)

text \<open>
  Claim C3, amended. A planned task whose type is in no registered worker's capability
  list, and which the planner did not assign to a registered worker (\<open>assigned_to\<close> is
  \<open>None\<close>, empty, or names no registered worker): \<open>delegate_task\<close> returns false and
  leaves the task \<open>FAILED\<close> with the error \<open>No agent available for task type: <type>\<close>.
  On that record \<open>execute_task\<close> raises \<open>ValueError\<close> before any worker is called, in
  every state with the same registered names, and changes neither the record, the registry
  nor the environment; a batch that contains the record raises, returns and writes what
  the batch without it does. In \<open>execute_goal\<close> the record is still as delegation left
  it at the end, and \<open>execute_goal\<close> returns the aggregator's outcome unless the batch
  without the task lets an exception outside \<open>Exception\<close> through.
\<close>

theorem unroutable_task_fails_without_execution:
  fixes L :: "('w, 'z) leader_scheme" and e :: "'w env"
  assumes init: "(if initialized L then (None, L, e) else initialize L e) = (None, L1, e1)"
    and plan: "plan_tasks L1 e1 goal ctx = (Inr ts, L2, e2)"
    and i: "i < length ts"
    and nocap: "capable_agents L2 (task_type (ts ! i)) = []"
    and un: "\<forall>n. assigned_to (ts ! i) = Some n \<longrightarrow>
               n = [] \<or> n \<notin> fst ` set (team_members L2)"
    and unrouted: "unrouted = (ts ! i)\<lparr>status := FAILED,
        error := Some (''No agent available for task type: '' @ task_type (ts ! i))\<rparr>"
  shows "delegate_task L2 (ts ! i) = (False, unrouted, L2) \<and>
    (\<forall>L' e'. fst ` set (team_members (L' :: ('w, 'z) leader_scheme)) = fst ` set (team_members L2) \<longrightarrow>
       (\<exists>msg. execute_task L' (e' :: 'w env) unrouted =
                 (Inl (Exn ValueError msg), unrouted, L', e'))) \<and>
    (\<forall>L' e' xs ys.
       fst ` set (team_members (L' :: ('w, 'z) leader_scheme)) = fst ` set (team_members L2) \<longrightarrow>
       execute_all L' (e' :: 'w env) (xs @ unrouted # ys) =
         (case execute_all L' e' (xs @ ys) of
            (raised, fin, rest) \<Rightarrow>
              (raised, take (length xs) fin @ unrouted # drop (length xs) fin, rest))) \<and>
    (\<exists>ds L3 raised fin rs L4 e4.
       delegate_all (store_tasks ts L2) ts = (ds, L3) \<and>
       length ds = length ts \<and> ds ! i = unrouted \<and>
       execute_all (store_tasks ds L3) e2 ds = (raised, fin, rs, L4, e4) \<and>
       length fin = length ts \<and> fin ! i = unrouted \<and>
       execute_all (store_tasks ds L3) e2 (take i ds @ drop (Suc i) ds) =
         (raised, take i fin @ drop (Suc i) fin, rs, L4, e4) \<and>
       (\<forall>y. raised = Some y \<longrightarrow> \<not> is_exception y) \<and>
       execute_goal plan_tasks aggregate_results L e goal ctx =
         (case raised of
            None \<Rightarrow> (aggregate_results (store_tasks fin L4) fin, store_tasks fin L4, e4)
          | Some y \<Rightarrow> (Inl y, store_tasks fin L4, e4)))"
proof -
  let ?K = "fst ` set (team_members L2)"
  let ?P = "\<lambda>L' :: ('w, 'z) leader_scheme. fst ` set (team_members L') = ?K"
  have fu: "assigned_to unrouted = assigned_to (ts ! i)" using unrouted by simp
  have a: "delegate_task L2 (ts ! i) = (False, unrouted, L2)"
    using delegate_task_no_capable[OF nocap] unrouted by simp
  have b: "\<And>(L' :: ('w, 'z) leader_scheme) (e' :: 'w env). ?P L' \<Longrightarrow>
      \<exists>msg. execute_task L' e' unrouted = (Inl (Exn ValueError msg), unrouted, L', e')"
    by (rule execute_task_not_invoked) (use un fu in simp)
  have b': "\<And>(L' :: ('w, 'z) leader_scheme) (e' :: 'w env). ?P L' \<Longrightarrow>
      \<exists>v. is_exception v \<and> execute_task L' e' unrouted = (Inl v, unrouted, L', e')"
  proof -
    fix L' :: "('w, 'z) leader_scheme" and e' :: "'w env"
    assume "?P L'"
    from b[OF this, of e'] obtain msg where
      "execute_task L' e' unrouted = (Inl (Exn ValueError msg), unrouted, L', e')" by blast
    moreover have "is_exception (Exn ValueError msg)" by simp
    ultimately show "\<exists>v. is_exception v \<and> execute_task L' e' unrouted = (Inl v, unrouted, L', e')"
      by blast
  qed
  have inv: "\<And>(L' :: ('w, 'z) leader_scheme) (e' :: 'w env) t.
      ?P L' \<Longrightarrow> ?P (fst (snd (snd (execute_task L' e' t))))"
    by (simp add: keys_execute_task)
  have c: "\<And>(L' :: ('w, 'z) leader_scheme) (e' :: 'w env) xs ys. ?P L' \<Longrightarrow>
      execute_all L' e' (xs @ unrouted # ys) =
         (case execute_all L' e' (xs @ ys) of
            (raised, fin, rest) \<Rightarrow>
              (raised, take (length xs) fin @ unrouted # drop (length xs) fin, rest))"
    by (rule execute_all_skip[where P = ?P, OF b' inv])
  define ds where "ds = fst (delegate_all (store_tasks ts L2) ts)"
  define L3 where "L3 = snd (delegate_all (store_tasks ts L2) ts)"
  have del: "delegate_all (store_tasks ts L2) ts = (ds, L3)" by (simp add: ds_def L3_def)
  have lds: "length ds = length ts" by (simp add: ds_def delegate_all_length)
  have "capable_agents (snd (delegate_all (store_tasks ts L2) (take i ts))) (task_type (ts ! i)) = []"
    using nocap by (simp add: delegate_all_capable_empty)
  then have dsi: "ds ! i = unrouted"
    using delegate_all_nth[OF i, of "store_tasks ts L2"] unrouted
    by (simp add: ds_def delegate_task_no_capable)
  have P3: "?P (store_tasks ds L3)"
    using keys_delegate_all[of "store_tasks ts L2" ts] by (simp add: L3_def)
  have split: "ds = take i ds @ unrouted # drop (Suc i) ds"
    using id_take_nth_drop[of i ds] i lds dsi by simp
  obtain raised red rs L4 e4 where
    red: "execute_all (store_tasks ds L3) e2 (take i ds @ drop (Suc i) ds) = (raised, red, rs, L4, e4)"
    by (cases "execute_all (store_tasks ds L3) e2 (take i ds @ drop (Suc i) ds)") auto
  define fin where "fin = take i red @ unrouted # drop i red"
  have lred: "length red = length ts - 1"
    using execute_all_length[OF red] i lds by simp
  have run: "execute_all (store_tasks ds L3) e2 ds = (raised, fin, rs, L4, e4)"
    using c[OF P3, of e2 "take i ds" "drop (Suc i) ds"] red split i lds
    by (simp add: fin_def min_def)
  have lf: "length fin = length ts" using lred i by (auto simp: fin_def min_def)
  have fi: "fin ! i = unrouted" using lred i by (simp add: fin_def nth_append min_def)
  have tk: "take i fin @ drop (Suc i) fin = red" using lred i by (simp add: fin_def min_def)
  have ry: "\<forall>y. raised = Some y \<longrightarrow> \<not> is_exception y"
    using execute_all_raised[of "store_tasks ds L3" e2 ds _ "(fin, rs, L4, e4)"] run by simp
  have g: "execute_goal plan_tasks aggregate_results L e goal ctx =
         (case raised of
            None \<Rightarrow> (aggregate_results (store_tasks fin L4) fin, store_tasks fin L4, e4)
          | Some y \<Rightarrow> (Inl y, store_tasks fin L4, e4))"
    using init plan del run by (simp add: execute_goal_def split: option.splits)
  have d: "\<exists>ds L3 raised fin rs L4 e4.
       delegate_all (store_tasks ts L2) ts = (ds, L3) \<and>
       length ds = length ts \<and> ds ! i = unrouted \<and>
       execute_all (store_tasks ds L3) e2 ds = (raised, fin, rs, L4, e4) \<and>
       length fin = length ts \<and> fin ! i = unrouted \<and>
       execute_all (store_tasks ds L3) e2 (take i ds @ drop (Suc i) ds) =
         (raised, take i fin @ drop (Suc i) fin, rs, L4, e4) \<and>
       (\<forall>y. raised = Some y \<longrightarrow> \<not> is_exception y) \<and>
       execute_goal plan_tasks aggregate_results L e goal ctx =
         (case raised of
            None \<Rightarrow> (aggregate_results (store_tasks fin L4) fin, store_tasks fin L4, e4)
          | Some y \<Rightarrow> (Inl y, store_tasks fin L4, e4))"
    using del lds dsi run lf fi red tk ry g by blast
  show ?thesis using a b c d by blast
qed

text \<open>
  Claim C1 as stated fails. \<open>execute_task\<close> and the loop of \<open>execute_goal\<close> catch
  \<open>Exception\<close> only. With worker \<open>A\<close> raising \<open>SystemExit\<close> on the first of two tasks,
  \<open>execute_goal\<close> raises that exception to its caller, the first task is left
  \<open>IN_PROGRESS\<close> with no error, and the second task, delegated to \<open>B\<close>, is never executed
  (the world counts one call). And a task delegated to a worker registered under the empty
  name is not executed either, since \<open>not task.assigned_to\<close> holds for it: after the
  failure of the first task the second one is left \<open>DELEGATED\<close>.
\<close>

theorem worker_exit_or_empty_name_stops_execution:
  "(case execute_goal (fixed_plan two_tasks) status_report exit_team start_env ''demo goal'' None of
      (r, L', e') \<Rightarrow>
        r = Inl (Exn SystemExit ''stop'') \<and>
        map task_summary (tasks L') =
          [(''task_1'', Some ''A'', IN_PROGRESS, None), (''task_2'', Some ''B'', DELEGATED, None)] \<and>
        world e' = 1) \<and>
   (case execute_goal (fixed_plan two_tasks) status_report nameless_team start_env ''demo goal'' None of
      (r, L', e') \<Rightarrow>
        r = Inr [FAILED, DELEGATED] \<and>
        map task_summary (tasks L') =
          [(''task_1'', Some ''A'', FAILED, Some ''boom''), (''task_2'', Some [], DELEGATED, None)] \<and>
        world e' = 1)"
  by (simp add: execute_goal_def initialize_def exit_team_def nameless_team_def register_agent_def
        empty_leader_def failing_worker_def ok_worker_def exiting_worker_def start_env_def
        fixed_plan_def two_tasks_def
        status_report_def store_tasks_def delegate_task_def capable_agents_def new_task_def
        execute_task_def Let_def now_def update_member_def task_summary_def)

text \<open>
  Claim C1, amended. In \<open>execute_goal\<close>, let the execution loop reach planned task \<open>j\<close>
  (no exception outside \<open>Exception\<close> before it), let the task be assigned to a registered
  worker with a non-empty name, and let that worker's \<open>execute\<close> raise an exception \<open>x\<close>
  that is an instance of \<open>Exception\<close>. Then \<open>execute_task\<close> leaves the task's record
  \<open>FAILED\<close> with \<open>error\<close> the string of \<open>x\<close>, and the loop goes on: the tasks after \<open>j\<close>
  are run through the loop from the state that the failure left, and \<open>execute_goal\<close>
  returns the aggregator's outcome over all planned tasks, unless one of those later tasks
  lets an exception outside \<open>Exception\<close> through. All tasks were delegated before the
  first one was executed.
\<close>

theorem worker_exception_recorded_batch_continues:
  assumes init: "(if initialized L then (None, L, e) else initialize L e) = (None, L1, e1)"
    and plan: "plan_tasks L1 e1 goal ctx = (Inr ts, L2, e2)"
    and del: "delegate_all (store_tasks ts L2) ts = (ds, L3)"
    and j: "j < length ds"
    and pre: "execute_all (store_tasks ds L3) e2 (take j ds) = (None, bef, rsj, Lj, ej)"
    and asg: "assigned_to (ds ! j) = Some n" and ne: "n \<noteq> []"
    and reg: "map_of (team_members Lj) n = Some d"
    and out: "agent_execute (agent_instance d) (metadata (ds ! j)) (world ej) = (Inl x, w')"
    and exc: "is_exception x"
  shows "\<exists>t' Lj' ej' raised aft rs L4 e4.
     execute_task Lj ej (ds ! j) = (Inl x, t', Lj', ej') \<and>
     status t' = FAILED \<and> error t' = Some (exn_str x) \<and>
     execute_all Lj' ej' (drop (Suc j) ds) = (raised, aft, rs, L4, e4) \<and>
     (\<forall>y. raised = Some y \<longrightarrow> \<not> is_exception y) \<and>
     length ds = length ts \<and> length bef = j \<and> length aft = length ts - Suc j \<and>
     execute_goal plan_tasks aggregate_results L e goal ctx =
       (case raised of
          None \<Rightarrow> (aggregate_results (store_tasks (bef @ t' # aft) L4) (bef @ t' # aft),
                   store_tasks (bef @ t' # aft) L4, e4)
        | Some y \<Rightarrow> (Inl y, store_tasks (bef @ t' # aft) L4, e4))"
proof -
  obtain ts1 e' where nw: "now (ej\<lparr>world := w'\<rparr>) = (ts1, e')"
    by (cases "now (ej\<lparr>world := w'\<rparr>)") auto
  define t' where
    "t' = (ds ! j)\<lparr>status := FAILED, error := Some (exn_str x), completed_at := Some ts1\<rparr>"
  define Lj' where "Lj' = Lj\<lparr>team_members :=
      update_member n (\<lambda>d. d\<lparr>tasks_failed := tasks_failed d + 1\<rparr>) (team_members Lj)\<rparr>"
  have x: "execute_task Lj ej (ds ! j) = (Inl x, t', Lj', e')"
    using asg ne reg out exc nw by (simp add: execute_task_def Let_def t'_def Lj'_def)
  obtain raised aft rs L4 e4 where
    rest: "execute_all Lj' e' (drop (Suc j) ds) = (raised, aft, rs, L4, e4)"
    by (cases "execute_all Lj' e' (drop (Suc j) ds)") auto
  have split: "ds = take j ds @ ds ! j # drop (Suc j) ds"
    using id_take_nth_drop[OF j] .
  have esc: "escapes (Inl x :: exn + pyval) = None" using exc by simp
  from execute_all_snoc[OF pre x rest esc] obtain rs' where
    run: "execute_all (store_tasks ds L3) e2 ds = (raised, bef @ t' # aft, rs', L4, e4)"
    using split by auto
  have lds: "length ds = length ts"
    using delegate_all_length[of "store_tasks ts L2" ts] del by simp
  have lb: "length bef = j" using execute_all_length[OF pre] j by simp
  have la: "length aft = length ts - Suc j" using execute_all_length[OF rest] lds by simp
  have ry: "\<forall>y. raised = Some y \<longrightarrow> \<not> is_exception y"
    using execute_all_raised[of Lj' e' "drop (Suc j) ds" _ "(aft, rs, L4, e4)"] rest by simp
  have g: "execute_goal plan_tasks aggregate_results L e goal ctx =
       (case raised of
          None \<Rightarrow> (aggregate_results (store_tasks (bef @ t' # aft) L4) (bef @ t' # aft),
                   store_tasks (bef @ t' # aft) L4, e4)
        | Some y \<Rightarrow> (Inl y, store_tasks (bef @ t' # aft) L4, e4))"
    using init plan del run by (simp add: execute_goal_def split: option.splits)
  have st: "status t' = FAILED \<and> error t' = Some (exn_str x)" by (simp add: t'_def)
  show ?thesis using x st rest ry lds lb la g by blast
qed

lemma mixed_team_members:
  "team_members mixed_team =
    [(''A'', \<lparr>agent_instance = failing_worker, capabilities = [''x''],
            tasks_assigned = 0, tasks_completed = 0, tasks_failed = 0\<rparr>),
     (''B'', \<lparr>agent_instance = ok_worker, capabilities = [''y''],
            tasks_assigned = 0, tasks_completed = 0, tasks_failed = 0\<rparr>)]"
  by (simp add: mixed_team_def register_agent_def empty_leader_def)

lemma mixed_team_initialize:
  "(if initialized mixed_team then (None, mixed_team, start_env)
    else initialize mixed_team start_env) = (None, mixed_team\<lparr>initialized := True\<rparr>, start_env)"
  by (simp add: initialize_def mixed_team_members start_env_def)
     (simp add: mixed_team_def register_agent_def empty_leader_def failing_worker_def ok_worker_def)

theorem worker_exception_recorded_batch_continues_witness:
  "\<exists>t' t'' L' e'.
     execute_goal (fixed_plan two_tasks) status_report mixed_team start_env ''demo goal'' None =
       (status_report L' [t', t''], L', e') \<and>
     status t' = FAILED \<and> error t' = Some ''boom'' \<and> status t'' = COMPLETED"
proof -
  let ?L1 = "mixed_team\<lparr>initialized := True\<rparr>"
  let ?dA = "\<lparr>agent_instance = failing_worker, capabilities = [''x''],
            tasks_assigned = 1, tasks_completed = 0, tasks_failed = 0\<rparr>"
  let ?dB = "\<lparr>agent_instance = ok_worker, capabilities = [''y''],
            tasks_assigned = 1, tasks_completed = 0, tasks_failed = 0\<rparr>"
  let ?d1 = "(new_task ''task_1'' ''x'')\<lparr>assigned_to := Some ''A'', status := DELEGATED\<rparr>"
  let ?d2 = "(new_task ''task_2'' ''y'')\<lparr>assigned_to := Some ''B'', status := DELEGATED\<rparr>"
  let ?ds = "[?d1, ?d2]"
  let ?L3 = "store_tasks two_tasks ?L1\<lparr>team_members := [(''A'', ?dA), (''B'', ?dB)]\<rparr>"
  let ?f1 = "?d1\<lparr>status := FAILED, error := Some ''boom'', completed_at := Some 0\<rparr>"
  let ?L4 = "store_tasks ?ds ?L3\<lparr>team_members := [(''A'', ?dA\<lparr>tasks_failed := 1\<rparr>), (''B'', ?dB)]\<rparr>"
  let ?e4 = "start_env\<lparr>world := Suc 0\<rparr>"
  have plan: "fixed_plan two_tasks ?L1 start_env ''demo goal'' None = (Inr two_tasks, ?L1, start_env)"
    by (simp add: fixed_plan_def)
  have del: "delegate_all (store_tasks two_tasks ?L1) two_tasks = (?ds, ?L3)"
    by (simp add: delegate_task_def capable_agents_def mixed_team_members update_member_def
          new_task_def two_tasks_def)
  have j: "0 < length ?ds" by simp
  have pre: "execute_all (store_tasks ?ds ?L3) start_env (take 0 ?ds) =
      (None, [], [], store_tasks ?ds ?L3, start_env)"
    by simp
  have asg: "assigned_to (?ds ! 0) = Some ''A''" by simp
  have ne: "''A'' \<noteq> []" by simp
  have reg: "map_of (team_members (store_tasks ?ds ?L3)) ''A'' = Some ?dA" by simp
  have out: "agent_execute (agent_instance ?dA) (metadata (?ds ! 0)) (world start_env) =
               (Inl (Exn OtherException ''boom''), Suc 0)"
    by (simp add: failing_worker_def start_env_def)
  have exc: "is_exception (Exn OtherException ''boom'')" by simp
  from worker_exception_recorded_batch_continues
         [where plan_tasks = "fixed_plan two_tasks" and aggregate_results = status_report,
          OF mixed_team_initialize plan del j pre asg ne reg out exc]
  obtain t' Lj' ej' raised aft rs L4 e4 where
    x: "execute_task (store_tasks ?ds ?L3) start_env (?ds ! 0) =
          (Inl (Exn OtherException ''boom''), t', Lj', ej')"
    and st: "status t' = FAILED" "error t' = Some (exn_str (Exn OtherException ''boom''))"
    and rest: "execute_all Lj' ej' (drop (Suc 0) ?ds) = (raised, aft, rs, L4, e4)"
    and g: "execute_goal (fixed_plan two_tasks) status_report mixed_team start_env ''demo goal'' None =
       (case raised of
          None \<Rightarrow> (status_report (store_tasks ([] @ t' # aft) L4) ([] @ t' # aft),
                   store_tasks ([] @ t' # aft) L4, e4)
        | Some y \<Rightarrow> (Inl y, store_tasks ([] @ t' # aft) L4, e4))"
    by blast
  have "execute_task (store_tasks ?ds ?L3) start_env (?ds ! 0) =
          (Inl (Exn OtherException ''boom''), ?f1, ?L4, ?e4)"
    by (simp add: execute_task_def Let_def new_task_def failing_worker_def start_env_def now_def
          update_member_def)
  with x have s: "Lj' = ?L4" "ej' = ?e4" by simp_all
  have "execute_all ?L4 ?e4 (drop (Suc 0) ?ds) =
      (None, [?d2\<lparr>result := PStr ''done'', status := COMPLETED, completed_at := Some 0\<rparr>],
       [PStr ''done''],
       ?L4\<lparr>team_members := [(''A'', ?dA\<lparr>tasks_failed := 1\<rparr>), (''B'', ?dB\<lparr>tasks_completed := 1\<rparr>)]\<rparr>,
       start_env\<lparr>world := Suc (Suc 0)\<rparr>)"
    by (simp add: execute_task_def Let_def new_task_def ok_worker_def start_env_def now_def
          update_member_def)
  with rest s have r: "raised = None"
    "aft = [?d2\<lparr>result := PStr ''done'', status := COMPLETED, completed_at := Some 0\<rparr>]"
    by simp_all
  let ?c2 = "?d2\<lparr>result := PStr ''done'', status := COMPLETED, completed_at := Some 0\<rparr>"
  have g': "execute_goal (fixed_plan two_tasks) status_report mixed_team start_env ''demo goal'' None =
       (status_report (store_tasks [t', ?c2] L4) [t', ?c2], store_tasks [t', ?c2] L4, e4)"
    using g unfolding r by simp
  have e': "error t' = Some ''boom''" using st(2) by simp
  have c: "status ?c2 = COMPLETED" by simp
  from g' st(1) e' c show ?thesis by blast
qed

theorem unroutable_task_fails_without_execution_witness:
  "delegate_task (mixed_team\<lparr>initialized := True\<rparr>) (new_task ''task_1'' ''z'') =
     (False, (new_task ''task_1'' ''z'')\<lparr>status := FAILED,
        error := Some ''No agent available for task type: z''\<rparr>,
      mixed_team\<lparr>initialized := True\<rparr>) \<and>
   (\<exists>L' e'.
     execute_goal (fixed_plan [new_task ''task_1'' ''z''])
        status_report mixed_team start_env ''demo goal'' None =
       (status_report L' [(new_task ''task_1'' ''z'')\<lparr>status := FAILED,
            error := Some ''No agent available for task type: z''\<rparr>], L', e') \<and>
     world e' = 0)"
proof -
  let ?ts = "[new_task ''task_1'' ''z'']"
  let ?L1 = "mixed_team\<lparr>initialized := True\<rparr>"
  let ?f = "(new_task ''task_1'' ''z'')\<lparr>status := FAILED,
        error := Some ''No agent available for task type: z''\<rparr>"
  have plan: "fixed_plan ?ts ?L1 start_env ''demo goal'' None = (Inr ?ts, ?L1, start_env)"
    by (simp add: fixed_plan_def)
  have i: "0 < length ?ts" by simp
  have un: "\<forall>n. assigned_to (?ts ! 0) = Some n \<longrightarrow> n = [] \<or> n \<notin> fst ` set (team_members ?L1)"
    by (simp add: new_task_def)
  have nocap: "capable_agents ?L1 (task_type (?ts ! 0)) = []"
    by (simp add: capable_agents_def mixed_team_members new_task_def)
  have unrouted: "?f = (?ts ! 0)\<lparr>status := FAILED,
        error := Some (''No agent available for task type: '' @ task_type (?ts ! 0))\<rparr>"
    by (simp add: new_task_def)
  from unroutable_task_fails_without_execution
         [where plan_tasks = "fixed_plan ?ts" and aggregate_results = status_report,
          OF mixed_team_initialize plan i nocap un unrouted]
  have a: "delegate_task ?L1 (?ts ! 0) = (False, ?f, ?L1)"
    and d: "\<exists>ds L3 raised fin rs L4 e4.
       delegate_all (store_tasks ?ts ?L1) ?ts = (ds, L3) \<and>
       length ds = length ?ts \<and> ds ! 0 = ?f \<and>
       execute_all (store_tasks ds L3) start_env ds = (raised, fin, rs, L4, e4) \<and>
       length fin = length ?ts \<and> fin ! 0 = ?f \<and>
       execute_all (store_tasks ds L3) start_env (take 0 ds @ drop (Suc 0) ds) =
         (raised, take 0 fin @ drop (Suc 0) fin, rs, L4, e4) \<and>
       (\<forall>y. raised = Some y \<longrightarrow> \<not> is_exception y) \<and>
       execute_goal (fixed_plan ?ts) status_report mixed_team start_env ''demo goal'' None =
         (case raised of
            None \<Rightarrow> (status_report (store_tasks fin L4) fin, store_tasks fin L4, e4)
          | Some y \<Rightarrow> (Inl y, store_tasks fin L4, e4))"
    by blast+
  from d obtain ds L3 raised fin rs L4 e4 where
    l: "length ds = length ?ts" "length fin = length ?ts" and f: "fin ! 0 = ?f"
    and red: "execute_all (store_tasks ds L3) start_env (take 0 ds @ drop (Suc 0) ds) =
         (raised, take 0 fin @ drop (Suc 0) fin, rs, L4, e4)"
    and g: "execute_goal (fixed_plan ?ts) status_report mixed_team start_env ''demo goal'' None =
         (case raised of
            None \<Rightarrow> (status_report (store_tasks fin L4) fin, store_tasks fin L4, e4)
          | Some y \<Rightarrow> (Inl y, store_tasks fin L4, e4))"
    by blast
  from l(2) f have fin: "fin = [?f]" by (cases fin) auto
  from l(1) have "drop (Suc 0) ds = []" by simp
  with red have r: "raised = None" "e4 = start_env" by simp_all
  have "world start_env = 0" by (simp add: start_env_def)
  with g a r fin show ?thesis by auto
qed

text \<open>
  Claim C2. When some registered worker is capable of the task's type, \<open>delegate_task\<close>
  returns true and assigns the capable worker \<open>n\<close> whose \<open>tasks_assigned\<close> is strictly
  smaller than that of every capable worker registered before it and at most that of every
  capable worker registered after it, and increments that counter. With exactly two
  capable workers \<open>a\<close> (registered first) and \<open>b\<close>, both with no assignments, delegating
  \<open>N\<close> tasks of that type leaves \<open>a\<close> with \<open>(N + 1) div 2\<close> tasks and \<open>b\<close> with
  \<open>N div 2\<close>.
\<close>

theorem delegate_task_least_loaded:
  "(capable_agents L (task_type t) \<noteq> [] \<longrightarrow>
      (\<exists>pre n d post.
         capable_agents L (task_type t) = pre @ (n, d) # post \<and>
         (\<forall>y\<in>set pre. tasks_assigned d < tasks_assigned (snd y)) \<and>
         (\<forall>y\<in>set post. tasks_assigned d \<le> tasks_assigned (snd y)) \<and>
         delegate_task L t =
           (True, t\<lparr>assigned_to := Some n, status := DELEGATED\<rparr>,
            L\<lparr>team_members :=
                update_member n (\<lambda>d. d\<lparr>tasks_assigned := tasks_assigned d + 1\<rparr>)
                  (team_members L)\<rparr>))) \<and>
   (capable_agents L ty = [(a, da), (b, db)] \<and> a \<noteq> b \<and>
    tasks_assigned da = 0 \<and> tasks_assigned db = 0 \<and> (\<forall>t\<in>set ts. task_type t = ty) \<longrightarrow>
      (\<exists>da' db'.
         capable_agents (snd (delegate_all L ts)) ty = [(a, da'), (b, db')] \<and>
         tasks_assigned da' = (length ts + 1) div 2 \<and>
         tasks_assigned db' = length ts div 2 \<and>
         length (filter (\<lambda>t. assigned_to t = Some a) (fst (delegate_all L ts))) =
           (length ts + 1) div 2 \<and>
         length (filter (\<lambda>t. assigned_to t = Some b) (fst (delegate_all L ts))) =
           length ts div 2))"
proof (intro conjI impI)
  assume "capable_agents L (task_type t) \<noteq> []"
  then show "\<exists>pre n d post.
         capable_agents L (task_type t) = pre @ (n, d) # post \<and>
         (\<forall>y\<in>set pre. tasks_assigned d < tasks_assigned (snd y)) \<and>
         (\<forall>y\<in>set post. tasks_assigned d \<le> tasks_assigned (snd y)) \<and>
         delegate_task L t =
           (True, t\<lparr>assigned_to := Some n, status := DELEGATED\<rparr>,
            L\<lparr>team_members :=
                update_member n (\<lambda>d. d\<lparr>tasks_assigned := tasks_assigned d + 1\<rparr>)
                  (team_members L)\<rparr>)"
    by (rule delegate_task_chooses)
next
  assume h: "capable_agents L ty = [(a, da), (b, db)] \<and> a \<noteq> b \<and>
    tasks_assigned da = 0 \<and> tasks_assigned db = 0 \<and> (\<forall>t\<in>set ts. task_type t = ty)"
  obtain ts' L' where d: "delegate_all L ts = (ts', L')" by (cases "delegate_all L ts") auto
  have "tasks_assigned da = tasks_assigned db + 0" using h by simp
  from delegate_all_two_workers[OF _ _ this _ _ d, of ty a b] h
  show "\<exists>da' db'.
         capable_agents (snd (delegate_all L ts)) ty = [(a, da'), (b, db')] \<and>
         tasks_assigned da' = (length ts + 1) div 2 \<and>
         tasks_assigned db' = length ts div 2 \<and>
         length (filter (\<lambda>t. assigned_to t = Some a) (fst (delegate_all L ts))) =
           (length ts + 1) div 2 \<and>
         length (filter (\<lambda>t. assigned_to t = Some b) (fst (delegate_all L ts))) =
           length ts div 2"
    using d by simp
qed

lemma twin_team_members:
  "team_members twin_team =
    [(''A'', \<lparr>agent_instance = ok_worker, capabilities = [''x''],
            tasks_assigned = 0, tasks_completed = 0, tasks_failed = 0\<rparr>),
     (''B'', \<lparr>agent_instance = ok_worker, capabilities = [''x''],
            tasks_assigned = 0, tasks_completed = 0, tasks_failed = 0\<rparr>)]"
  by (simp add: twin_team_def register_agent_def empty_leader_def)

theorem delegate_task_least_loaded_witness:
  "(\<exists>da' db'.
      capable_agents (snd (delegate_all twin_team
          [new_task ''task_1'' ''x'', new_task ''task_2'' ''x'', new_task ''task_3'' ''x''])) ''x'' =
        [(''A'', da'), (''B'', db')] \<and>
      tasks_assigned da' = 2 \<and> tasks_assigned db' = 1) \<and>
   fst (snd (delegate_task twin_team (new_task ''task_1'' ''x''))) =
     (new_task ''task_1'' ''x'')\<lparr>assigned_to := Some ''A'', status := DELEGATED\<rparr>"
proof -
  let ?ts = "[new_task ''task_1'' ''x'', new_task ''task_2'' ''x'', new_task ''task_3'' ''x'']"
  let ?d = "\<lparr>agent_instance = ok_worker, capabilities = [''x''],
            tasks_assigned = 0, tasks_completed = 0, tasks_failed = 0\<rparr>"
  let ?t = "new_task ''task_1'' ''x''"
  have cap: "capable_agents twin_team ''x'' = [(''A'', ?d), (''B'', ?d)]"
    by (simp add: capable_agents_def twin_team_members)
  have h2: "capable_agents twin_team ''x'' = [(''A'', ?d), (''B'', ?d)] \<and> ''A'' \<noteq> ''B'' \<and>
    tasks_assigned ?d = 0 \<and> tasks_assigned ?d = 0 \<and> (\<forall>t\<in>set ?ts. task_type t = ''x'')"
    using cap by (simp add: new_task_def)
  have h1: "capable_agents twin_team (task_type ?t) \<noteq> []"
    using cap by (simp add: new_task_def)
  note inst = delegate_task_least_loaded[of twin_team ?t "''x''" "''A''" ?d "''B''" ?d ?ts]
  from conjunct2[OF inst, THEN mp, OF h2] obtain da' db' where
    "capable_agents (snd (delegate_all twin_team ?ts)) ''x'' = [(''A'', da'), (''B'', db')]"
    "tasks_assigned da' = (length ?ts + 1) div 2" "tasks_assigned db' = length ?ts div 2"
    by blast
  then have r: "\<exists>da' db'.
      capable_agents (snd (delegate_all twin_team ?ts)) ''x'' = [(''A'', da'), (''B'', db')] \<and>
      tasks_assigned da' = 2 \<and> tasks_assigned db' = 1"
    by (simp del: delegate_all.simps)
  from conjunct1[OF inst, THEN mp, OF h1] obtain pre n d post where
    s: "capable_agents twin_team (task_type ?t) = pre @ (n, d) # post"
    and p: "\<forall>y\<in>set pre. tasks_assigned d < tasks_assigned (snd y)"
    and dt: "delegate_task twin_team ?t =
           (True, ?t\<lparr>assigned_to := Some n, status := DELEGATED\<rparr>,
            twin_team\<lparr>team_members :=
                update_member n (\<lambda>d. d\<lparr>tasks_assigned := tasks_assigned d + 1\<rparr>)
                  (team_members twin_team)\<rparr>)"
    by blast
  have "pre = []"
  proof (cases pre)
    case Nil then show ?thesis .
  next
    case (Cons y ys)
    with s cap have "y = (''A'', ?d)" by (simp add: new_task_def)
    moreover have "d = ?d" using s cap Cons by (cases ys) (auto simp: new_task_def)
    ultimately show ?thesis using p Cons by simp
  qed
  with s cap have "n = ''A''" by (simp add: new_task_def)
  with dt r show ?thesis by (simp del: delegate_all.simps)
qed

section \<open>The bakery planner leaves the registry alone\<close>

lemma next_task_id_members:
  "next_task_id L = (tid, L1) \<Longrightarrow> team_members L1 = team_members L"
  by (auto simp add: next_task_id_def simp del: str_nat.simps)

lemma plan_each_members:
  assumes "\<And>x L e r L' e'. body x L e = (r, L', e') \<Longrightarrow> team_members L' = team_members L"
  shows "plan_each body xs L e = (r, L', e') \<Longrightarrow> team_members L' = team_members L"
proof (induction xs arbitrary: L e r L' e')
  case Nil
  then show ?case by simp
next
  case (Cons x xs)
  obtain r1 L1 e1 where b: "body x L e = (r1, L1, e1)" by (cases "body x L e") auto
  have m1: "team_members L1 = team_members L" using assms[OF b] .
  show ?case
  proof (cases r1)
    case (Inl err)
    then show ?thesis using b m1 Cons.prems by simp
  next
    case (Inr t)
    obtain r2 L2 e2 where p: "plan_each body xs L1 e1 = (r2, L2, e2)"
      by (cases "plan_each body xs L1 e1") auto
    have "team_members L2 = team_members L1" using Cons.IH[OF p] .
    then show ?thesis using b Inr p m1 Cons.prems by (cases r2) auto
  qed
qed

lemma scale_recipe_task_members:
  "scale_recipe_task x L e = (r, L', e') \<Longrightarrow> team_members L' = team_members L"
  by (auto simp: scale_recipe_task_def split: prod.splits sum.splits
           dest: next_task_id_members)

lemma quality_check_task_members:
  "quality_check_task x L e = (r, L', e') \<Longrightarrow> team_members L' = team_members L"
  by (auto simp: quality_check_task_def split: prod.splits sum.splits
           dest: next_task_id_members)

lemma inquiry_task_members:
  "inquiry_task x L e = (r, L', e') \<Longrightarrow> team_members L' = team_members L"
  by (auto simp: inquiry_task_def split: prod.splits sum.splits
           dest: next_task_id_members)


lemma plan_each_scale_members:
  "plan_each scale_recipe_task xs L e = (r, L', e') \<Longrightarrow> team_members L' = team_members L"
  using scale_recipe_task_members by (rule plan_each_members)

lemma plan_each_quality_members:
  "plan_each quality_check_task xs L e = (r, L', e') \<Longrightarrow> team_members L' = team_members L"
  using quality_check_task_members by (rule plan_each_members)

lemma plan_each_inquiry_members:
  "plan_each inquiry_task xs L e = (r, L', e') \<Longrightarrow> team_members L' = team_members L"
  using inquiry_task_members by (rule plan_each_members)

lemma plan_production_planning_members:
  "plan_production_planning c L e = (r, L', e') \<Longrightarrow> team_members L' = team_members L"
  by (auto simp: plan_production_planning_def split: prod.splits sum.splits if_splits
           dest!: next_task_id_members plan_each_scale_members)

lemma plan_quality_check_members:
  "plan_quality_check c L e = (r, L', e') \<Longrightarrow> team_members L' = team_members L"
  by (auto simp: plan_quality_check_def split: sum.splits
           dest!: plan_each_quality_members)

lemma plan_customer_service_members:
  "plan_customer_service c L e = (r, L', e') \<Longrightarrow> team_members L' = team_members L"
  by (auto simp: plan_customer_service_def split: sum.splits
           dest!: plan_each_inquiry_members)

lemma plan_custom_order_members:
  "plan_custom_order c L e = (r, L', e') \<Longrightarrow> team_members L' = team_members L"
  by (auto simp: plan_custom_order_def split: prod.splits pyval.splits if_splits
           dest!: next_task_id_members)

lemma plan_recipe_management_members:
  "plan_recipe_management c L e = (r, L', e') \<Longrightarrow> team_members L' = team_members L"
  by (auto simp: plan_recipe_management_def Let_def split: prod.splits sum.splits
           dest!: next_task_id_members)

lemma plan_demand_forecast_members:
  "plan_demand_forecast c L e = (r, L', e') \<Longrightarrow> team_members L' = team_members L"
  by (auto simp: plan_demand_forecast_def split: prod.splits dest!: next_task_id_members)

lemma plan_general_goal_members:
  "plan_general_goal g c L e = (r, L', e') \<Longrightarrow> team_members L' = team_members L"
  by (auto simp: plan_general_goal_def split: prod.splits dest!: next_task_id_members)

lemma plan_daily_operations_members:
  "plan_daily_operations c L e = (r, L', e') \<Longrightarrow> team_members L' = team_members L"
  by (auto simp: plan_daily_operations_def split: prod.splits sum.splits if_splits
           dest!: plan_production_planning_members plan_quality_check_members
             plan_customer_service_members)

lemma BakeryLeader_plan_tasks_members:
  "team_members (fst (snd (BakeryLeader_plan_tasks L e goal ctx))) = team_members L"
proof -
  obtain r L' e' where p: "BakeryLeader_plan_tasks L e goal ctx = (r, L', e')"
    by (cases "BakeryLeader_plan_tasks L e goal ctx") auto
  then have "team_members L' = team_members L"
    by (auto simp: BakeryLeader_plan_tasks_def Let_def split: if_splits
             dest!: plan_production_planning_members plan_custom_order_members
               plan_quality_check_members plan_recipe_management_members
               plan_demand_forecast_members plan_customer_service_members
               plan_daily_operations_members plan_general_goal_members)
  with p show ?thesis by simp
qed

section \<open>Registry counters over a session\<close>

lemma counters_le_refl [simp]: "counters_le d d"
  by (simp add: counters_le_def)

lemma counters_le_trans: "counters_le a b \<Longrightarrow> counters_le b c \<Longrightarrow> counters_le a c"
  by (auto simp: counters_le_def)

lemma grows_refl: "team_members L' = team_members L \<Longrightarrow> grows L L'"
  by (simp add: grows_def)

lemma grows_same [simp]: "grows L L"
  by (simp add: grows_def)

lemma grows_trans: "grows A B \<Longrightarrow> grows B C \<Longrightarrow> grows A C"
  unfolding grows_def by (metis counters_le_trans)

lemma grows_update_member:
  assumes "\<And>d. counters_le d (f d)"
  shows "grows L (L\<lparr>team_members := update_member k f (team_members L)\<rparr>)"
  using assms by (auto simp: grows_def map_of_update_member keys_update_member)

lemma grows_delegate_task: "grows L (snd (snd (delegate_task L t)))"
  by (auto simp: delegate_task_def counters_le_def split: list.splits prod.splits
           intro!: grows_update_member)

lemma grows_execute_task: "grows L (fst (snd (snd (execute_task L e t))))"
  by (auto simp: execute_task_def Let_def counters_le_def
           split: option.splits prod.splits sum.splits
           intro!: grows_update_member)

lemma grows_delegate_all: "grows L (snd (delegate_all L ts))"
proof (induction ts arbitrary: L)
  case Nil show ?case by (simp add: grows_refl)
next
  case (Cons t ts)
  show ?case
    using grows_trans[OF grows_delegate_task[of L t] Cons.IH[of "snd (snd (delegate_task L t))"]]
    by (simp add: delegate_all_Cons_snd del: delegate_all.simps(2))
qed

lemma grows_execute_all: "grows L (fst (snd (snd (snd (execute_all L e ts)))))"
proof (induction ts arbitrary: L e)
  case Nil show ?case by (simp add: grows_refl)
next
  case (Cons t ts)
  obtain r t' L' e' where x: "execute_task L e t = (r, t', L', e')"
    by (cases "execute_task L e t") auto
  have g1: "grows L L'" using grows_execute_task[of L e t] x by simp
  show ?case
  proof (cases "escapes r")
    case (Some y)
    with x g1 show ?thesis by simp
  next
    case None
    with x grows_trans[OF g1 Cons.IH[of L' e']] show ?thesis
      by (auto split: prod.splits)
  qed
qed

lemma grows_store_tasks: "grows L (store_tasks ts L)"
  by (simp add: grows_refl)

lemma grows_initialize: "grows L (fst (snd (initialize L e)))"
  by (simp add: initialize_def grows_refl split: prod.splits option.splits)

lemma grows_execute_goal:
  assumes pl: "\<And>L e g c. team_members (fst (snd (plan_tasks L e g c))) = team_members L"
  shows "grows L (fst (snd (execute_goal plan_tasks aggregate_results L e goal ctx)))"
proof -
  obtain a L1 e1 where i: "(if initialized L then (None, L, e) else initialize L e) = (a, L1, e1)"
    by (cases "(if initialized L then (None, L, e) else initialize L e)") auto
  have g1: "grows L L1" using i grows_initialize[of L e]
    by (auto simp: grows_refl split: if_splits)
  show ?thesis
  proof (cases a)
    case (Some y)
    then show ?thesis using i g1 by (simp add: execute_goal_def)
  next
    case None
    obtain r L2 e2 where p: "plan_tasks L1 e1 goal ctx = (r, L2, e2)"
      by (cases "plan_tasks L1 e1 goal ctx") auto
    have g2: "grows L1 L2" using pl[of L1 e1 goal ctx] p by (simp add: grows_refl)
    show ?thesis
    proof (cases r)
      case (Inl x)
      then show ?thesis using i None p grows_trans[OF g1 g2] by (simp add: execute_goal_def)
    next
      case (Inr ts)
      define ds where "ds = fst (delegate_all (store_tasks ts L2) ts)"
      define L3 where "L3 = snd (delegate_all (store_tasks ts L2) ts)"
      obtain raised fin rs L4 e4 where
        x: "execute_all (store_tasks ds L3) e2 ds = (raised, fin, rs, L4, e4)"
        by (cases "execute_all (store_tasks ds L3) e2 ds") auto
      have g3: "grows L2 L3" unfolding L3_def
        using grows_trans[OF grows_store_tasks grows_delegate_all] .
      have g4: "grows L3 L4"
        using grows_trans[OF grows_store_tasks grows_execute_all[of "store_tasks ds L3" e2 ds]] x
        by simp
      have g5: "grows L4 (store_tasks fin L4)"
        by (rule grows_store_tasks)
      have "fst (snd (execute_goal plan_tasks aggregate_results L e goal ctx)) =
              store_tasks fin L4"
      proof -
        have d: "delegate_all (store_tasks ts L2) ts = (ds, L3)" by (simp add: ds_def L3_def)
        show ?thesis using i None p Inr x d
          by (cases raised) (simp_all add: execute_goal_def)
      qed
      then show ?thesis
        using grows_trans[OF g1 grows_trans[OF g2 grows_trans[OF g3 grows_trans[OF g4 g5]]]]
        by simp
    qed
  qed
qed

lemma map_of_dict_set:
  "map_of (dict_set k v xs) n = (if n = k then Some v else map_of xs n)"
  by (induction xs) auto

lemma keys_dict_set: "fst ` set (dict_set k v xs) = insert k (fst ` set xs)"
  by (induction xs) force+


lemma grows_apply_op:
  assumes pl: "\<And>L e g c. team_members (fst (snd (plan_tasks L e g c))) = team_members L"
    and "\<And>a i c. op \<noteq> Register a i c"
  shows "grows L (fst (apply_op plan_tasks aggregate_results (L, e) op))"
proof (cases op)
  case (Register a i c)
  with assms(2)[of a i c] show ?thesis by simp
next
  case Initialize
  then show ?thesis by (simp add: grows_initialize)
next
  case (Delegate t)
  then show ?thesis by (simp add: grows_delegate_task)
next
  case (Execute t)
  then show ?thesis by (simp add: grows_execute_task)
next
  case (ExecuteGoal g c)
  then show ?thesis
    using grows_execute_goal[where plan_tasks = plan_tasks and L = L and e = e and goal = g
        and ctx = c and aggregate_results = aggregate_results] pl by simp
qed

lemma run_ops_monotone:
  assumes pl: "\<And>L e g c. team_members (fst (snd (plan_tasks L e g c))) = team_members L"
  shows "fresh_registrations names ops \<Longrightarrow> fst ` set (team_members L) \<subseteq> set names \<Longrightarrow>
     map_of (team_members L) n = Some d \<Longrightarrow>
     \<exists>d'. map_of (team_members (fst (run_ops plan_tasks aggregate_results (L, e) ops))) n = Some d'
          \<and> counters_le d d'"
proof (induction ops arbitrary: L e names d)
  case Nil
  then show ?case by (auto simp: run_ops_def)
next
  case (Cons op ops)
  obtain L1 e1 where s: "apply_op plan_tasks aggregate_results (L, e) op = (L1, e1)"
    by (cases "apply_op plan_tasks aggregate_results (L, e) op") auto
  have r: "run_ops plan_tasks aggregate_results (L, e) (op # ops) =
           run_ops plan_tasks aggregate_results (L1, e1) ops"
    using s by (simp add: run_ops_def)
  show ?case
  proof (cases "\<exists>a i c. op = Register a i c")
    case True
    then obtain a i c where op: "op = Register a i c" by blast
    from Cons.prems(1) op have fr: "a \<notin> set names" "fresh_registrations (a # names) ops"
      by simp_all
    have "n \<in> fst ` set (team_members L)" using Cons.prems(3) by (metis map_of_SomeD fst_conv image_eqI)
    with Cons.prems(2) fr(1) have na: "n \<noteq> a" by auto
    have L1: "L1 = register_agent a i c L" using s op by simp
    have k: "fst ` set (team_members L1) \<subseteq> set (a # names)"
      using Cons.prems(2) by (auto simp: L1 register_agent_def keys_dict_set)
    have m: "map_of (team_members L1) n = Some d"
      using Cons.prems(3) na by (simp add: L1 register_agent_def map_of_dict_set)
    from Cons.IH[OF fr(2) k m, of e1] show ?thesis unfolding r .
  next
    case False
    then have nr: "\<And>a i c. op \<noteq> Register a i c" by blast
    have g: "grows L L1" using grows_apply_op[where plan_tasks = plan_tasks and op = op and L = L and e = e
        and aggregate_results = aggregate_results, OF pl nr] s by simp
    from g Cons.prems(3) obtain d1 where m: "map_of (team_members L1) n = Some d1"
      and le: "counters_le d d1" unfolding grows_def by blast
    have k: "fst ` set (team_members L1) \<subseteq> set names"
      using g Cons.prems(2) unfolding grows_def by simp
    have fr: "fresh_registrations names ops" using Cons.prems(1) False by (cases op) simp_all
    from Cons.IH[OF fr k m, of e1] obtain d' where
      "map_of (team_members (fst (run_ops plan_tasks aggregate_results (L1, e1) ops))) n = Some d'"
      "counters_le d1 d'" by blast
    then show ?thesis unfolding r using counters_le_trans[OF le] by blast
  qed
qed

text \<open>
  Claim C9, amended. In a session of \<open>register_agent\<close>, \<open>initialize\<close>, \<open>delegate_task\<close>,
  \<open>execute_task\<close> and \<open>execute_goal\<close> calls in which no \<open>register_agent\<close> reuses a
  registered name (and whose planner leaves the registry alone), every registry entry
  stays registered and its three counters never decrease. \<open>register_agent\<close> with another
  name and \<open>initialize\<close> leave the entry as it is, so only delegation and execution change
  its counters; \<open>register_agent\<close> with the entry's own name replaces it by a fresh entry
  whose counters are zero.
\<close>

theorem counters_monotone_without_reregistration:
  assumes pl: "\<forall>L e g c. team_members (fst (snd (plan_tasks L e g c))) = team_members L"
    and fresh: "fresh_registrations (map fst (team_members L)) ops"
    and entry: "map_of (team_members L) n = Some d"
  shows "(\<exists>d'. map_of (team_members
                  (fst (run_ops plan_tasks aggregate_results (L, e) ops))) n = Some d' \<and>
               counters_le d d') \<and>
         (agent_name \<noteq> n \<longrightarrow>
            map_of (team_members (register_agent agent_name inst caps L)) n = Some d) \<and>
         map_of (team_members (fst (snd (initialize L e)))) n = Some d \<and>
         map_of (team_members (register_agent n inst caps L)) n =
           Some \<lparr>agent_instance = inst, capabilities = caps,
                 tasks_assigned = 0, tasks_completed = 0, tasks_failed = 0\<rparr>"
proof -
  have a: "\<exists>d'. map_of (team_members
                  (fst (run_ops plan_tasks aggregate_results (L, e) ops))) n = Some d' \<and>
               counters_le d d'"
    by (rule run_ops_monotone[OF _ fresh _ entry]) (use pl in auto)
  have b: "team_members (fst (snd (initialize L e))) = team_members L"
    by (simp add: initialize_def split: prod.splits option.splits)
  show ?thesis using a entry b
    by (simp add: register_agent_def map_of_dict_set)
qed

lemma staffed_bakery_members:
  "team_members staffed_bakery =
    [(''A'', \<lparr>agent_instance = ok_worker, capabilities = [''general''],
            tasks_assigned = 0, tasks_completed = 0, tasks_failed = 0\<rparr>),
     (''B'', \<lparr>agent_instance = ok_worker, capabilities = [''general''],
            tasks_assigned = 0, tasks_completed = 0, tasks_failed = 0\<rparr>)]"
  by (simp add: staffed_bakery_def register_agent_def artisan_bakery_def)

theorem counters_monotone_without_reregistration_witness:
  "\<exists>d'. map_of (team_members (fst (run_ops BakeryLeader_plan_tasks bakery_report
            (staffed_bakery, start_env)
            [Register ''C'' ok_worker [''recipe_scale''], ExecuteGoal ''Say Hello'' None,
             Delegate (new_task ''task_9'' ''general'')]))) ''A'' = Some d' \<and>
        counters_le \<lparr>agent_instance = ok_worker, capabilities = [''general''],
            tasks_assigned = 0, tasks_completed = 0, tasks_failed = 0\<rparr> d'"
proof -
  have pl: "\<forall>(L :: nat bakery_leader) e g c.
      team_members (fst (snd (BakeryLeader_plan_tasks L e g c))) = team_members L"
    by (simp add: BakeryLeader_plan_tasks_members)
  have fresh: "fresh_registrations (map fst (team_members staffed_bakery))
      [Register ''C'' ok_worker [''recipe_scale''], ExecuteGoal ''Say Hello'' None,
       Delegate (new_task ''task_9'' ''general'')]"
    by (simp add: staffed_bakery_members)
  have entry: "map_of (team_members staffed_bakery) ''A'' =
      Some \<lparr>agent_instance = ok_worker, capabilities = [''general''],
            tasks_assigned = 0, tasks_completed = 0, tasks_failed = 0\<rparr>"
    by (simp add: staffed_bakery_members)
  from counters_monotone_without_reregistration
         [where plan_tasks = BakeryLeader_plan_tasks and aggregate_results = bakery_report
            and e = start_env, OF pl fresh entry]
  show ?thesis by blast
qed

text \<open>
  Claim C9 as stated fails: after one delegation worker \<open>A\<close> has \<open>tasks_assigned = 1\<close>;
  registering \<open>A\<close> again puts the counter back to \<open>0\<close>.
\<close>

theorem reregistration_resets_counters:
  "map_option tasks_assigned (map_of (team_members (fst (run_ops (fixed_plan []) status_report
       (empty_leader, start_env)
       [Register ''A'' ok_worker [''x''], Delegate (new_task ''task_1'' ''x'')]))) ''A'') = Some 1 \<and>
   map_option tasks_assigned (map_of (team_members (fst (run_ops (fixed_plan []) status_report
       (empty_leader, start_env)
       [Register ''A'' ok_worker [''x''], Delegate (new_task ''task_1'' ''x''),
        Register ''A'' ok_worker [''x'']]))) ''A'') = Some 0"
  by (simp add: run_ops_def register_agent_def empty_leader_def delegate_task_def
        capable_agents_def update_member_def new_task_def)

section \<open>The scheduler: proofs\<close>

lemma str_int_5: "str_int 5 = ''5''"
  by (simp add: str_int_def)


lemma parse_5s: "py_int (rstrip (py_replace ''every_5s'' ''every_'' '''') ''smh'') = Some 5"
  by (simp add: py_int_def rstrip_def py_replace_def startswith_def digit_val_def)

lemma now_props:
  "now e = (ts, e') \<Longrightarrow>
     clock e \<le> ts \<and> clock e' = ts \<and> set (delays e') \<subseteq> set (delays e) \<and> world e' = world e"
  by (auto simp: now_def split: list.splits)

lemma now_gap:
  "now e = (ts, e') \<Longrightarrow> \<forall>d\<in>set (delays e). d \<le> b \<Longrightarrow> ts \<le> clock e + int b"
  by (auto simp: now_def split: list.splits)

lemma later_refl [simp]: "later e e"
  by (simp add: later_def)

lemma later_trans: "later a b \<Longrightarrow> later b c \<Longrightarrow> later a c"
  by (auto simp: later_def)

lemma later_world [simp]: "later e (e\<lparr>world := w\<rparr>)"
  by (simp add: later_def)

lemma later_now: "now e = (ts, e') \<Longrightarrow> later e e'"
  by (auto simp: later_def dest: now_props)

lemma later_Task_execute: "later e (snd (snd (Task_execute t e)))"
  by (auto simp: Task_execute_def split: prod.splits sum.splits
           intro: later_trans[OF later_world later_now])

lemma later_update_next_run: "later e (snd (snd (update_next_run t e)))"
  by (auto simp: update_next_run_def split: option.splits prod.splits intro: later_now)

lemma later_execute_task_failed: "later e (snd (snd (snd (execute_task_failed x t S e))))"
  by (auto simp: execute_task_failed_def split: prod.splits intro: later_now)

lemma later_scheduler_execute_task: "later e (snd (snd (snd (scheduler_execute_task t S e))))"
proof -
  obtain r t1 e1 where a: "Task_execute t e = (r, t1, e1)" by (cases "Task_execute t e") auto
  have l1: "later e e1" using later_Task_execute[of e t] a by simp
  show ?thesis
  proof (cases r)
    case (Inl x)
    then show ?thesis using a later_trans[OF l1 later_execute_task_failed]
      by (simp add: scheduler_execute_task_def Let_def)
  next
    case (Inr v)
    obtain u t2 e2 where b: "update_next_run t1 e1 = (u, t2, e2)"
      by (cases "update_next_run t1 e1") auto
    have l2: "later e e2" using later_trans[OF l1 later_update_next_run[of e1 t1]] b by simp
    show ?thesis
    proof (cases u)
      case (Inl x)
      then show ?thesis using a b Inr later_trans[OF l2 later_execute_task_failed]
        by (simp add: scheduler_execute_task_def Let_def)
    next
      case (Inr uu)
      obtain ts e3 where c: "now e2 = (ts, e3)" by (cases "now e2") auto
      from later_trans[OF l2 later_now[OF c]] show ?thesis using a b \<open>r = Inr v\<close> Inr c
        by (simp add: scheduler_execute_task_def Let_def)
    qed
  qed
qed

lemma state_tasks_scheduler_execute_task [simp]:
  "state_tasks (fst (snd (snd (scheduler_execute_task t S e)))) = state_tasks S"
  by (simp add: scheduler_execute_task_def execute_task_failed_def log_msg_def Let_def
           split: prod.splits sum.splits)

lemma running_scheduler_execute_task [simp]:
  "state_running (fst (snd (snd (scheduler_execute_task t S e)))) = state_running S"
  by (simp add: scheduler_execute_task_def execute_task_failed_def log_msg_def Let_def
           split: prod.splits sum.splits)

lemma map_of_update_member_other:
  "k' \<noteq> k \<Longrightarrow> map_of (update_member k f xs) k' = map_of xs k'"
  by (simp add: map_of_update_member)

lemma execute_due_skip:
  "\<not> is_due ts t \<Longrightarrow> execute_due ts ((k, t) # rest) res S e = execute_due ts rest res S e"
  by simp

lemma execute_due_run:
  "is_due ts t \<Longrightarrow> execute_due ts ((k, t) # rest) res S e =
     (case scheduler_execute_task t S e of
        (Inl x, t', S', e') \<Rightarrow> (Inl x, put_task k t' S', e')
      | (Inr r, t', S', e') \<Rightarrow>
          execute_due ts rest (dict_set k r res) (put_task k t' S') e')"
  by simp

lemma execute_due_append:
  "execute_due ts (pre @ post) res S e =
     (case execute_due ts pre res S e of
        (Inl x, S', e') \<Rightarrow> (Inl x, S', e')
      | (Inr r, S', e') \<Rightarrow> execute_due ts post r S' e')"
proof (induction pre arbitrary: res S e)
  case Nil
  show ?case by simp
next
  case (Cons a pre)
  obtain k t where a: "a = (k, t)" by (cases a) auto
  show ?case
  proof (cases "is_due ts t")
    case False
    then show ?thesis using Cons.IH[of res S e] a
      by (simp add: execute_due_skip del: execute_due.simps(2))
  next
    case True
    obtain r t' S' e' where x: "scheduler_execute_task t S e = (r, t', S', e')"
      by (cases "scheduler_execute_task t S e") auto
    show ?thesis
    proof (cases r)
      case (Inl y)
      then show ?thesis using True a x
        by (simp add: execute_due_run del: execute_due.simps(2))
    next
      case (Inr v)
      then show ?thesis
        using True a x Cons.IH[of "dict_set k v res" "put_task k t' S'" e']
        by (simp add: execute_due_run del: execute_due.simps(2))
    qed
  qed
qed

lemma execute_due_invariants:
  "later e (snd (snd (execute_due ts items res S e))) \<and>
   state_running (fst (snd (execute_due ts items res S e))) = state_running S \<and>
   fst ` set (state_tasks (fst (snd (execute_due ts items res S e)))) = fst ` set (state_tasks S) \<and>
   (\<forall>k. k \<notin> fst ` set items \<longrightarrow>
      map_of (state_tasks (fst (snd (execute_due ts items res S e)))) k = map_of (state_tasks S) k)"
proof (induction items arbitrary: res S e)
  case Nil
  show ?case by simp
next
  case (Cons a items)
  obtain k t where a: "a = (k, t)" by (cases a) auto
  show ?case
  proof (cases "is_due ts t")
    case False
    then show ?thesis using Cons.IH[where res = res and S = S and e = e] a
      by (auto simp add: execute_due_skip simp del: execute_due.simps(2))
  next
    case True
    obtain r t' S' e' where x: "scheduler_execute_task t S e = (r, t', S', e')"
      by (cases "scheduler_execute_task t S e") auto
    have l: "later e e'"
      using later_scheduler_execute_task[where e = e and t = t and S = S] x by simp
    have st: "state_tasks S' = state_tasks S" and ru: "state_running S' = state_running S"
      using state_tasks_scheduler_execute_task[of t S e] running_scheduler_execute_task[of t S e] x
      by simp_all
    show ?thesis
    proof (cases r)
      case (Inl y)
      then show ?thesis using True a x l st ru
        by (auto simp add: execute_due_run put_task_def keys_update_member map_of_update_member
                 simp del: execute_due.simps(2))
    next
      case (Inr v)
      have "execute_due ts (a # items) res S e =
              execute_due ts items (dict_set k v res) (put_task k t' S') e'"
        using True a x Inr by (simp add: execute_due_run del: execute_due.simps(2))
      then show ?thesis
        using Cons.IH[where res = "dict_set k v res" and S = "put_task k t' S'" and e = e'] l st ru a
        by (auto simp add: put_task_def keys_update_member map_of_update_member
                 simp del: execute_due.simps(2) intro: later_trans)
    qed
  qed
qed

lemma scheduler_execute_task_raises:
  assumes "func t (args t) (kwargs t) (world e) = (Inl x, w')"
    and "now (e\<lparr>world := w'\<rparr>) = (ts, e')"
  shows "scheduler_execute_task t S e =
     (Inl (Exn PlainException (''Task '' @ name t @ '' failed: '' @ exn_str x)), t,
      (log_msg ERROR (''Task '' @ name t @ '' failed: '' @ ''Task '' @ name t @ '' failed: '' @ exn_str x)
         (log_msg INFO (''Executing task: '' @ name t) S))
        \<lparr>state_history := state_history S @
           [\<lparr>h_task = name t, h_timestamp = ts, h_status = ''failed'', h_runs = None,
             h_error = Some (''Task '' @ name t @ '' failed: '' @ exn_str x)\<rparr>]\<rparr>,
      e')"
  using assms
  by (simp add: scheduler_execute_task_def Task_execute_def execute_task_failed_def Let_def
        log_msg_def)

lemma update_next_run_5s:
  "schedule t = Some ''every_5s'' \<Longrightarrow> now e = (n0, e') \<Longrightarrow>
   update_next_run t e = (Inr (), t\<lparr>next_run := Some (n0 + 5000000)\<rparr>, e')"
  by (simp add: update_next_run_def parse_5s startswith_def timedelta_seconds_def)

lemma scheduler_execute_task_returns_5s:
  assumes x: "scheduler_execute_task t S e = (Inr r, t', S', e')"
    and sch: "schedule t = Some ''every_5s''"
  shows "\<exists>lr n0. last_run t' = Some lr \<and> next_run t' = Some (n0 + 5000000) \<and>
           runs t' = runs t + 1 \<and> lr \<le> n0 \<and>
           (\<forall>b. (\<forall>d\<in>set (delays e). d \<le> b) \<longrightarrow> n0 \<le> lr + int b)"
proof -
  obtain out w' where f: "func t (args t) (kwargs t) (world e) = (out, w')"
    by (cases "func t (args t) (kwargs t) (world e)") auto
  obtain lr ea where n1: "now (e\<lparr>world := w'\<rparr>) = (lr, ea)" by (cases "now (e\<lparr>world := w'\<rparr>)") auto
  obtain n0 eb where n2: "now ea = (n0, eb)" by (cases "now ea") auto
  obtain hs ec where n3: "now eb = (hs, ec)" by (cases "now eb") auto
  show ?thesis
  proof (cases out)
    case (Inl y)
    then show ?thesis using x f n1
      by (simp add: scheduler_execute_task_raises[OF _ n1])
  next
    case (Inr v)
    have te: "Task_execute t e = (Inr v, t\<lparr>last_run := Some lr, runs := runs t + 1\<rparr>, ea)"
      using f Inr n1 by (simp add: Task_execute_def)
    have un: "update_next_run (t\<lparr>last_run := Some lr, runs := runs t + 1\<rparr>) ea =
        (Inr (), t\<lparr>last_run := Some lr, runs := runs t + 1, next_run := Some (n0 + 5000000)\<rparr>, eb)"
      using update_next_run_5s[OF _ n2, of "t\<lparr>last_run := Some lr, runs := runs t + 1\<rparr>"] sch
      by simp
    have t': "t' = t\<lparr>last_run := Some lr, runs := runs t + 1, next_run := Some (n0 + 5000000)\<rparr>"
      using x te un n3 by (simp add: scheduler_execute_task_def Let_def)
    have p1: "clock ea = lr" "set (delays ea) \<subseteq> set (delays e)"
      using now_props[OF n1] by simp_all
    have p2: "lr \<le> n0" using now_props[OF n2] p1 by simp
    have p3: "\<forall>b. (\<forall>d\<in>set (delays e). d \<le> b) \<longrightarrow> n0 \<le> lr + int b"
    proof (intro allI impI)
      fix b assume "\<forall>d\<in>set (delays e). d \<le> b"
      with p1 have "\<forall>d\<in>set (delays ea). d \<le> b" by blast
      from now_gap[OF n2 this] p1 show "n0 \<le> lr + int b" by simp
    qed
    show ?thesis using t' p2 p3 by simp
  qed
qed

lemma distinct_dict_set:
  "distinct (map fst xs) \<Longrightarrow> distinct (map fst (dict_set k v xs))"
proof (induction xs)
  case Nil show ?case by simp
next
  case (Cons a xs)
  then show ?case using keys_dict_set[of k v xs] by (cases a) (auto simp: image_iff)
qed

lemma scheduler_initialize_idem:
  "scheduler_initialized S \<Longrightarrow> scheduler_initialize S = S"
  by (simp add: scheduler_initialize_def)

lemma scheduler_initialize_props:
  "scheduler_initialized (scheduler_initialize S) \<and>
   distinct (map fst (state_tasks S)) \<longrightarrow> distinct (map fst (state_tasks (scheduler_initialize S)))"
  by (simp add: scheduler_initialize_def log_msg_def)

lemma add_task_5s_immediately:
  assumes "add_task nm f as kw (Some 5) im ih True S e = (S1, e1)"
  shows "\<exists>ts. state_tasks S1 =
           dict_set nm ((new_scheduled_task nm f as kw (Some ''every_5s''))\<lparr>next_run := Some ts\<rparr>)
             (state_tasks (scheduler_initialize S)) \<and>
         clock e1 = ts \<and> later e e1 \<and> scheduler_initialized S1 \<and>
         state_running S1 = state_running (scheduler_initialize S)"
proof -
  obtain t1 ea where n1: "now e = (t1, ea)" by (cases "now e") auto
  obtain t2 eb where n2: "now ea = (t2, eb)" by (cases "now ea") auto
  have "S1 = log_msg INFO (''Task '' @ [CHR 0x27] @ nm @ [CHR 0x27] @ '' added to scheduler'')
            ((scheduler_initialize S)\<lparr>state_tasks := dict_set nm
               ((new_scheduled_task nm f as kw (Some ''every_5s''))\<lparr>next_run := Some t2\<rparr>)
               (state_tasks (scheduler_initialize S))\<rparr>)" and e1: "e1 = eb"
    using assms n1 n2
    by (simp_all add: add_task_def Let_def truthy_int_def str_int_5 new_scheduled_task_def
          timedelta_seconds_def)
  moreover have "scheduler_initialized (scheduler_initialize S)"
    by (simp add: scheduler_initialize_def log_msg_def)
  moreover have "later e eb" using later_trans[OF later_now[OF n1] later_now[OF n2]] .
  moreover have "clock eb = t2" using now_props[OF n2] by simp
  ultimately show ?thesis by (auto simp: log_msg_def)
qed

lemma split_at_key:
  assumes "map_of xs k = Some v" and "distinct (map fst xs)"
  shows "\<exists>pre post. xs = pre @ (k, v) # post \<and> k \<notin> fst ` set pre \<and> k \<notin> fst ` set post"
proof -
  from assms(1) have "(k, v) \<in> set xs" by (rule map_of_SomeD)
  then obtain pre post where s: "xs = pre @ (k, v) # post" by (meson split_list)
  with assms(2) show ?thesis by (intro exI[of _ pre] exI[of _ post]) auto
qed

lemma execute_due_reaches:
  assumes all: "execute_due ts (pre @ (k, t) # post) res S e = (Inr out, S2, e2)"
    and due: "is_due ts t"
    and kpost: "k \<notin> fst ` set post"
    and kin: "k \<in> fst ` set (state_tasks S)"
  shows "\<exists>r1 Sa ea v t' S' e'.
           execute_due ts pre res S e = (Inr r1, Sa, ea) \<and>
           scheduler_execute_task t Sa ea = (Inr v, t', S', e') \<and>
           later e ea \<and> map_of (state_tasks S2) k = Some t'"
proof -
  obtain o1 Sa ea where p: "execute_due ts pre res S e = (o1, Sa, ea)"
    by (cases "execute_due ts pre res S e") auto
  from all p obtain r1 where o1: "o1 = Inr r1"
    by (cases o1) (simp_all add: execute_due_append)
  have rest: "execute_due ts ((k, t) # post) r1 Sa ea = (Inr out, S2, e2)"
    using all p o1 by (simp add: execute_due_append)
  obtain o2 t' S' e' where x: "scheduler_execute_task t Sa ea = (o2, t', S', e')"
    by (cases "scheduler_execute_task t Sa ea") auto
  from rest x due obtain v where o2: "o2 = Inr v"
    by (cases o2) (simp_all add: execute_due_run del: execute_due.simps(2))
  have post: "execute_due ts post (dict_set k v r1) (put_task k t' S') e' = (Inr out, S2, e2)"
    using rest x due o2 by (simp add: execute_due_run del: execute_due.simps(2))
  have inv1: "later e ea" "fst ` set (state_tasks Sa) = fst ` set (state_tasks S)"
    using execute_due_invariants[of e ts pre res S] p by simp_all
  have st: "state_tasks S' = state_tasks Sa"
    using state_tasks_scheduler_execute_task[of t Sa ea] x by simp
  have "k \<in> fst ` set (state_tasks S')" using kin inv1(2) st by simp
  then obtain old where "map_of (state_tasks S') k = Some old"
    by (metis domIff dom_map_of_conv_image_fst not_Some_eq)
  then have "map_of (state_tasks (put_task k t' S')) k = Some t'"
    by (simp add: put_task_def map_of_update_member)
  moreover have "map_of (state_tasks S2) k = map_of (state_tasks (put_task k t' S')) k"
    using execute_due_invariants[of e' ts post "dict_set k v r1" "put_task k t' S'"] post kpost
    by simp
  ultimately show ?thesis using p o1 x o2 inv1(1) by auto
qed

text \<open>
  Claim C7. A job added with \<open>interval_seconds=5\<close> and \<open>run_immediately=True\<close> is stored
  with \<open>runs = 0\<close> and a \<open>next_run\<close> that is at most the next reading of the clock. After
  one \<open>execute()\<close> over the due jobs that returns normally, the job has \<open>runs = 1\<close>, and its
  \<open>next_run\<close> is \<open>last_run\<close> plus five seconds plus the time that passed between two
  consecutive readings of the clock: never less than \<open>last_run + 5 s\<close>, and at most
  \<open>last_run + 5 s + b\<close> when no two consecutive readings are more than \<open>b\<close> apart.
\<close>

theorem run_immediately_job_first_run:
  assumes d: "distinct (map fst (state_tasks S))"
    and add: "add_task nm f as kw (Some 5) interval_minutes interval_hours True S e = (S1, e1)"
    and tick: "execute None S1 e1 = (Inr res, S2, e2)"
  shows "(\<exists>j nr. map_of (state_tasks S1) nm = Some j \<and> runs j = 0 \<and>
            next_run j = Some nr \<and> nr \<le> fst (now e1)) \<and>
         (\<exists>j2 lr nr2. map_of (state_tasks S2) nm = Some j2 \<and> runs j2 = 1 \<and>
            last_run j2 = Some lr \<and> next_run j2 = Some nr2 \<and>
            lr + 5000000 \<le> nr2 \<and>
            (\<forall>b. (\<forall>d\<in>set (delays e1). d \<le> b) \<longrightarrow> nr2 \<le> lr + 5000000 + int b))"
proof -
  from add_task_5s_immediately[OF add] obtain ts where
    st1: "state_tasks S1 = dict_set nm
            ((new_scheduled_task nm f as kw (Some ''every_5s''))\<lparr>next_run := Some ts\<rparr>)
            (state_tasks (scheduler_initialize S))"
    and ck: "clock e1 = ts" and ini: "scheduler_initialized S1" by blast
  let ?j = "(new_scheduled_task nm f as kw (Some ''every_5s''))\<lparr>next_run := Some ts\<rparr>"
  have m1: "map_of (state_tasks S1) nm = Some ?j" by (simp add: st1 map_of_dict_set)
  obtain nowts e0 where n: "now e1 = (nowts, e0)" by (cases "now e1") auto
  have le: "ts \<le> nowts" using now_props[OF n] ck by simp
  have a: "\<exists>j nr. map_of (state_tasks S1) nm = Some j \<and> runs j = 0 \<and>
            next_run j = Some nr \<and> nr \<le> fst (now e1)"
    using m1 le n by (simp add: new_scheduled_task_def)
  have d1: "distinct (map fst (state_tasks S1))"
    unfolding st1 using d by (intro distinct_dict_set) (simp add: scheduler_initialize_def log_msg_def)
  from split_at_key[OF m1 d1] obtain pre post where
    sp: "state_tasks S1 = pre @ (nm, ?j) # post" and kpost: "nm \<notin> fst ` set post" by blast
  obtain out where
    due_all: "execute_due nowts (pre @ (nm, ?j) # post) [] S1 e0 = (Inr out, S2, e2)"
    using tick n ini sp
    by (auto simp: execute_def scheduler_initialize_idem Let_def split: prod.splits sum.splits)
  have due: "is_due nowts ?j" using le by (simp add: is_due_def new_scheduled_task_def)
  have kin: "nm \<in> fst ` set (state_tasks S1)" unfolding sp by simp
  from execute_due_reaches[OF due_all due kpost kin] obtain r1 Sa ea v t' S' e' where
    x: "scheduler_execute_task ?j Sa ea = (Inr v, t', S', e')"
    and l: "later e0 ea" and m2: "map_of (state_tasks S2) nm = Some t'" by blast
  have sch: "schedule ?j = Some ''every_5s''" by (simp add: new_scheduled_task_def)
  from scheduler_execute_task_returns_5s[OF x sch] obtain lr n0 where
    p: "last_run t' = Some lr" "next_run t' = Some (n0 + 5000000)" "runs t' = runs ?j + 1"
       "lr \<le> n0" "\<forall>b. (\<forall>d\<in>set (delays ea). d \<le> b) \<longrightarrow> n0 \<le> lr + int b" by blast
  have sub: "set (delays ea) \<subseteq> set (delays e1)"
    using l now_props[OF n] by (auto simp: later_def)
  have "\<forall>b. (\<forall>d\<in>set (delays e1). d \<le> b) \<longrightarrow> n0 + 5000000 \<le> lr + 5000000 + int b"
  proof (intro allI impI)
    fix b assume "\<forall>d\<in>set (delays e1). d \<le> b"
    with sub have "\<forall>d\<in>set (delays ea). d \<le> b" by blast
    with p(5) have "n0 \<le> lr + int b" by blast
    then show "n0 + 5000000 \<le> lr + 5000000 + int b" by simp
  qed
  then have b: "\<exists>j2 lr nr2. map_of (state_tasks S2) nm = Some j2 \<and> runs j2 = 1 \<and>
            last_run j2 = Some lr \<and> next_run j2 = Some nr2 \<and>
            lr + 5000000 \<le> nr2 \<and>
            (\<forall>b. (\<forall>d\<in>set (delays e1). d \<le> b) \<longrightarrow> nr2 \<le> lr + 5000000 + int b)"
    using m2 p(1-4) by (simp add: new_scheduled_task_def)
  from a b show ?thesis by blast
qed

lemma one_job_value:
  "one_job =
    (\<lparr>scheduler_name = ''TaskSchedulerAgent'', scheduler_initialized = True,
      state_tasks =
        [(''job'', \<lparr>name = ''job'', func = noting_call ''job'', args = [], kwargs = [],
            schedule = Some ''every_5s'', last_run = None,
            next_run = Some 30, runs = 0, enabled = True\<rparr>)],
      state_running = False, state_history = [],
      logged =
        [(INFO, ''Initializing TaskSchedulerAgent''),
         (INFO, ''TaskSchedulerAgent initialized successfully''),
         (INFO, ''Task '' @ [CHR 0x27] @ ''job'' @ [CHR 0x27] @ '' added to scheduler'')]\<rparr>,
     \<lparr>clock = 30, delays = [30, 40, 50, 60, 70, 80], world = []\<rparr>)"
  by (simp add: one_job_def add_task_def Let_def truthy_int_def str_int_5 new_scheduled_task_def
        timedelta_seconds_def scheduler_initialize_def log_msg_def fresh_scheduler_def
        ticking_env_def now_def)

lemma one_job_tick:
  "fst (execute None (fst one_job) (snd one_job)) = Inr (PDict [(''job'', PNone)])"
  by (simp add: one_job_value execute_def scheduler_initialize_def Let_def now_def is_due_def
        scheduler_execute_task_def Task_execute_def noting_call_def update_next_run_def
        parse_5s startswith_def put_task_def update_member_def log_msg_def)

theorem run_immediately_job_first_run_witness:
  "\<exists>j2 lr nr2.
     map_of (state_tasks (fst (snd (execute None (fst one_job) (snd one_job))))) ''job'' = Some j2 \<and>
     runs j2 = 1 \<and> last_run j2 = Some lr \<and> next_run j2 = Some nr2 \<and>
     lr + 5000000 \<le> nr2 \<and> nr2 \<le> lr + 5000000 + 80"
proof -
  have d: "distinct (map fst (state_tasks fresh_scheduler))"
    by (simp add: fresh_scheduler_def)
  have add: "add_task ''job'' (noting_call ''job'') [] [] (Some 5) None None True
       fresh_scheduler ticking_env = (fst one_job, snd one_job)"
    by (simp add: one_job_def)
  have tick: "execute None (fst one_job) (snd one_job) =
      (Inr (PDict [(''job'', PNone)]), fst (snd (execute None (fst one_job) (snd one_job))),
       snd (snd (execute None (fst one_job) (snd one_job))))"
    using one_job_tick by (metis prod.collapse)
  have b: "\<forall>d\<in>set (delays (snd one_job)). d \<le> 80" by (simp add: one_job_value)
  from run_immediately_job_first_run[OF d add tick] obtain j2 lr nr2 where
    "map_of (state_tasks (fst (snd (execute None (fst one_job) (snd one_job))))) ''job'' = Some j2"
    "runs j2 = 1" "last_run j2 = Some lr" "next_run j2 = Some nr2" "lr + 5000000 \<le> nr2"
    "\<forall>b. (\<forall>d\<in>set (delays (snd one_job)). d \<le> b) \<longrightarrow> nr2 \<le> lr + 5000000 + int b"
    by blast
  with b show ?thesis by force
qed

lemma map_fst_update_member [simp]: "map fst (update_member k f xs) = map fst xs"
  by (induction xs) (auto simp: update_member_def)

















section \<open>The bakery leader: proofs\<close>






lemma plan_general_goal_result:
  "\<exists>t e'. plan_general_goal goal context L e =
       (Inr [t], L\<lparr>task_counter := task_counter L + 1\<rparr>, e') \<and>
     task_id t = ''task_'' @ str_nat (task_counter L + 1) \<and>
     task_type t = ''general'' \<and> metadata t = context \<and> description t = [Lit goal] \<and>
     status t = PENDING \<and> assigned_to t = None"
  by (cases "now e")
     (simp add: plan_general_goal_def next_task_id_def Task_def del: str_nat.simps)

lemma no_trigger_general:
  assumes "\<forall>tr\<in>set bakery_triggers. \<not> contains tr (lower goal)"
  shows "BakeryLeader_plan_tasks L e goal context_opt =
     plan_general_goal goal (case context_opt of None \<Rightarrow> [] | Some c \<Rightarrow> c) L e"
  using assms by (simp add: BakeryLeader_plan_tasks_def bakery_triggers_def Let_def)

text \<open>
  Claim C6. When the lowered goal contains none of the trigger words, \<open>plan_tasks\<close> returns
  exactly one task; its type is \<open>general\<close>, its description the goal and its metadata the
  context that was passed in (the empty dict when the context is \<open>None\<close>).
\<close>

theorem unmatched_goal_gives_one_general_task:
  assumes "\<forall>tr\<in>set bakery_triggers. \<not> contains tr (lower goal)"
  shows "(\<exists>t e'. BakeryLeader_plan_tasks L e goal (Some context) =
            (Inr [t], L\<lparr>task_counter := task_counter L + 1\<rparr>, e') \<and>
          task_type t = ''general'' \<and> metadata t = context \<and> description t = [Lit goal] \<and>
          status t = PENDING \<and> assigned_to t = None) \<and>
         (\<exists>t e'. BakeryLeader_plan_tasks L e goal None =
            (Inr [t], L\<lparr>task_counter := task_counter L + 1\<rparr>, e') \<and>
          task_type t = ''general'' \<and> metadata t = [])"
proof -
  from plan_general_goal_result[of goal "context" L e] no_trigger_general[OF assms, of L e "Some context"]
  have a: "\<exists>t e'. BakeryLeader_plan_tasks L e goal (Some context) =
            (Inr [t], L\<lparr>task_counter := task_counter L + 1\<rparr>, e') \<and>
          task_type t = ''general'' \<and> metadata t = context \<and> description t = [Lit goal] \<and>
          status t = PENDING \<and> assigned_to t = None"
    by auto
  from plan_general_goal_result[of goal "[]" L e] no_trigger_general[OF assms, of L e None]
  have b: "\<exists>t e'. BakeryLeader_plan_tasks L e goal None =
            (Inr [t], L\<lparr>task_counter := task_counter L + 1\<rparr>, e') \<and>
          task_type t = ''general'' \<and> metadata t = []"
    by auto
  from a b show ?thesis by blast
qed

lemma say_hello_no_trigger:
  "\<forall>tr\<in>set bakery_triggers. \<not> contains tr (lower ''Say Hello'')"
  by (simp add: bakery_triggers_def lower_def lower_char_def startswith_def)

theorem unmatched_goal_gives_one_general_task_witness:
  "\<exists>t e'. BakeryLeader_plan_tasks artisan_bakery start_env ''Say Hello''
            (Some [(''who'', PStr ''world'')]) =
            (Inr [t], artisan_bakery\<lparr>task_counter := task_counter artisan_bakery + 1\<rparr>, e') \<and>
          task_type t = ''general'' \<and> metadata t = [(''who'', PStr ''world'')]"
  using unmatched_goal_gives_one_general_task[OF say_hello_no_trigger,
          of artisan_bakery start_env "[(''who'', PStr ''world'')]"]
  by blast










end
